theory Spec2Isabelle
  imports Main "HOL-Library.AList"
begin

section \<open>Python values and the string operations the installer uses\<close>

text \<open>
  The installer (\<open>gui.py\<close>, class \<open>On1OSInstaller\<close>) keeps its configuration in a
  Python dict whose values are \<open>None\<close>, strings and booleans. A dict keeps its keys in
  insertion order and an assignment to an existing key keeps the key's place, which is
  what \<open>AList.update\<close> does on an association list.

  A Python \<open>str\<close> is modelled as a \<open>string\<close>; a \<open>char\<close> stands for a code point
  below 256.
\<close>

datatype pyval = PyNone | PyStr string | PyBool bool

text \<open>Truth value of a Python object, as \<open>not x\<close> and \<open>x or y\<close> test it.\<close>

fun truthy :: "pyval \<Rightarrow> bool" where
  "truthy PyNone = False"
| "truthy (PyStr s) = (s \<noteq> [])"
| "truthy (PyBool b) = b"

text \<open>
  \<open>str.isspace\<close> for code points below 256: TAB, LF, VT, FF, CR, the four separators
  0x1C to 0x1F, the space, NEL (0x85) and the no-break space (0xA0). \<open>str.split()\<close> and
  \<open>str.strip()\<close> with no argument use this set.
\<close>

definition isspace :: "char \<Rightarrow> bool" where
  "isspace c = (c \<in> set [CHR 0x09, CHR 0x0A, CHR 0x0B, CHR 0x0C, CHR 0x0D,
                          CHR 0x1C, CHR 0x1D, CHR 0x1E, CHR 0x1F, CHR 0x20,
                          CHR 0x85, CHR 0xA0])"

text \<open>
  \<open>s.split()\<close>: the maximal runs of non-space characters, in order. \<open>tok\<close> is the run
  being read.
\<close>

fun split_ws :: "string \<Rightarrow> string \<Rightarrow> string list" where
  "split_ws tok [] = (if tok = [] then [] else [tok])"
| "split_ws tok (c # cs) =
     (if isspace c then (if tok = [] then split_ws [] cs else tok # split_ws [] cs)
      else split_ws (tok @ [c]) cs)"

definition str_split :: "string \<Rightarrow> string list" where
  "str_split s = split_ws [] s"

text \<open>\<open>s.split(sep)\<close> for a separator of one character: empty fields are kept.\<close>

fun split_char :: "char \<Rightarrow> string \<Rightarrow> string \<Rightarrow> string list" where
  "split_char sep tok [] = [tok]"
| "split_char sep tok (c # cs) =
     (if c = sep then tok # split_char sep [] cs else split_char sep (tok @ [c]) cs)"

definition str_split_on :: "char \<Rightarrow> string \<Rightarrow> string list" where
  "str_split_on sep s = split_char sep [] s"

text \<open>\<open>s.strip()\<close>.\<close>

definition str_strip :: "string \<Rightarrow> string" where
  "str_strip s = rev (dropWhile isspace (rev (dropWhile isspace s)))"

text \<open>\<open>sub in s\<close> on strings: \<open>sub\<close> occurs in \<open>s\<close> as a contiguous substring.\<close>

fun str_in :: "string \<Rightarrow> string \<Rightarrow> bool" where
  "str_in sub [] = (sub = [])"
| "str_in sub (c # cs) = (take (length sub) (c # cs) = sub \<or> str_in sub cs)"

text \<open>
  \<open>s.split(sep, 1)[1]\<close>: what follows the first occurrence of \<open>sep\<close>; \<open>None\<close> when
  \<open>sep\<close> does not occur (the list has one element and the index raises).
\<close>

fun after_first :: "string \<Rightarrow> string \<Rightarrow> string option" where
  "after_first sep [] = (if sep = [] then Some [] else None)"
| "after_first sep (c # cs) =
     (if take (length sep) (c # cs) = sep then Some (drop (length sep) (c # cs))
      else after_first sep cs)"

subsection \<open>The two regular expressions\<close>

text \<open>
  \<open>re.match(r'^[a-z][a-z0-9]*$', username)\<close> and
  \<open>re.match(r'^[a-zA-Z0-9-]+$', hostname)\<close>. The classes hold ASCII characters only.
  Without \<open>re.MULTILINE\<close>, \<open>$\<close> matches at the end of the string and also just before
  a newline that is the last character of the string. No character of either class is
  a newline, so the only position at which \<open>$\<close> can match is right after the longest
  run of class characters: backtracking to a shorter run leaves a class character in
  front of \<open>$\<close>.
\<close>

definition in_a_z :: "char \<Rightarrow> bool" where
  "in_a_z c = ((of_char c :: nat) \<in> {97..122})"

definition in_A_Z :: "char \<Rightarrow> bool" where
  "in_A_Z c = ((of_char c :: nat) \<in> {65..90})"

definition in_0_9 :: "char \<Rightarrow> bool" where
  "in_0_9 c = ((of_char c :: nat) \<in> {48..57})"

definition username_class :: "char \<Rightarrow> bool" where
  "username_class c = (in_a_z c \<or> in_0_9 c)"

definition hostname_class :: "char \<Rightarrow> bool" where
  "hostname_class c = (in_a_z c \<or> in_A_Z c \<or> in_0_9 c \<or> c = CHR ''-'')"

definition re_dollar :: "string \<Rightarrow> bool" where
  "re_dollar rest = (rest = [] \<or> rest = [CHR 0x0A])"

fun re_match_username :: "string \<Rightarrow> bool" where
  "re_match_username [] = False"
| "re_match_username (c # cs) = (in_a_z c \<and> re_dollar (dropWhile username_class cs))"

definition re_match_hostname :: "string \<Rightarrow> bool" where
  "re_match_hostname s =
     (takeWhile hostname_class s \<noteq> [] \<and> re_dollar (dropWhile hostname_class s))"

text \<open>
  What the specification asks of the two names, in its own words: the whole string
  is one lowercase letter followed by lowercase letters and digits, respectively one or
  more letters, digits and hyphens.
\<close>

definition spec_username_fullmatch :: "string \<Rightarrow> bool" where
  "spec_username_fullmatch s =
     (case s of [] \<Rightarrow> False | c # cs \<Rightarrow> in_a_z c \<and> list_all username_class cs)"

definition spec_hostname_fullmatch :: "string \<Rightarrow> bool" where
  "spec_hostname_fullmatch s = (s \<noteq> [] \<and> list_all hostname_class s)"

section \<open>The installer object\<close>

text \<open>
  The fields of \<open>On1OSInstaller\<close> that the methods read and write. Labels, fonts, grid
  positions and the two progress bars carry no state of their own and are left out.
  \<open>content\<close> says which step's widgets are in \<open>content_frame\<close>; \<open>entries\<close> is \<open>None\<close>
  until \<open>users_step\<close> has created the attributes \<open>root_pass_entry\<close> and the others
  (\<open>hasattr\<close> is false until then), and \<open>entries_alive\<close> says whether those widgets
  still exist: \<open>clear_content\<close> destroys them but the attributes keep pointing at them.
  \<open>threads\<close> holds, for each \<open>thread.start()\<close> of \<open>install_step\<close>, the configuration
  at that moment.
\<close>

datatype py_error = TclError | IndexError | KeyError | NameError | AttributeError

datatype screen =
  NoScreen | Welcome | Language | Keyboard | Network | Timezone | Partition | Desktop
  | Drivers | Users | Summary | Install

datatype command = CmdNextStep | CmdReboot

datatype dialog =
  ShowError string string | ShowInfo string string | AskOkCancel string string

record entries =
  root_pass_entry :: string
  root_pass_confirm :: string
  fullname_entry :: string
  username_entry :: string
  user_pass_entry :: string
  user_pass_confirm :: string
  hostname_entry :: string

record installer =
  config :: "(string \<times> pyval) list"
  current_step :: int
  content :: screen
  back_btn_state :: bool
  next_btn_state :: bool
  next_btn_text :: string
  next_btn_command :: command
  disks :: "string list"
  nvidia_var :: bool
  nonfree_var :: bool
  entries :: "entries option"
  entries_alive :: bool
  install_status :: string
  dialogs :: "dialog list"
  tk_errors :: "py_error list"
  threads :: "(string \<times> pyval) list list"
  rebooted :: bool
  quit :: bool

text \<open>
  What the outside world answers during one callback: the result of the \<open>lsblk\<close>
  subprocess (its standard output, or an exception) and the answer to the
  \<open>askokcancel\<close> dialog of \<open>quit_installer\<close>.
\<close>

datatype lsblk_result = LsblkRaised | LsblkStdout string

record environment =
  lsblk :: lsblk_result
  askokcancel :: bool

text \<open>The dict of \<open>__init__\<close>, in its order.\<close>

definition initial_config :: "(string \<times> pyval) list" where
  "initial_config =
     [(''target_disk'', PyNone),
      (''filesystem'', PyStr ''ext4''),
      (''desktop_environment'', PyStr ''xfce''),
      (''root_password'', PyStr []),
      (''username'', PyStr []),
      (''user_password'', PyStr []),
      (''user_fullname'', PyStr []),
      (''hostname'', PyStr ''on1os''),
      (''language'', PyStr ''en_US''),
      (''keyboard'', PyStr ''us''),
      (''timezone'', PyStr ''UTC''),
      (''mirror_country'', PyStr ''global''),
      (''install_nvidia'', PyBool False),
      (''install_nonfree'', PyBool False)]"

text \<open>\<open>self.config.get(key)\<close>: \<open>None\<close> for a missing key.\<close>

definition config_get :: "(string \<times> pyval) list \<Rightarrow> string \<Rightarrow> pyval" where
  "config_get c k = (case map_of c k of None \<Rightarrow> PyNone | Some v \<Rightarrow> v)"

definition update_config :: "string \<Rightarrow> pyval \<Rightarrow> installer \<Rightarrow> installer" where
  "update_config key v s = s\<lparr>config := AList.update key v (config s)\<rparr>"

text \<open>
  An exception that leaves a Tk callback is reported by Tk (a traceback on the standard
  error stream) and the callback ends; what it had assigned before stays assigned.
\<close>

definition tk_report :: "py_error \<Rightarrow> installer \<Rightarrow> installer" where
  "tk_report err s = s\<lparr>tk_errors := tk_errors s @ [err]\<rparr>"

definition messagebox :: "dialog \<Rightarrow> installer \<Rightarrow> installer" where
  "messagebox d s = s\<lparr>dialogs := dialogs s @ [d]\<rparr>"

text \<open>How Tcl shows a Python value handed to a widget.\<close>

fun tcl_str :: "pyval \<Rightarrow> string" where
  "tcl_str PyNone = ''None''"
| "tcl_str (PyStr s) = s"
| "tcl_str (PyBool b) = (if b then ''1'' else ''0'')"

subsection \<open>The catalogs of the selection steps\<close>

text \<open>
  The values of the radio buttons and comboboxes; display names are kept only where
  the code reads them back (the mirrors).
\<close>

definition languages :: "string list" where
  "languages = [''en_US'', ''en_GB'', ''es_ES'', ''fr_FR'', ''de_DE'', ''pt_BR'', ''it_IT'',
                ''ja_JP'', ''zh_CN'', ''ru_RU'']"

definition keyboards :: "string list" where
  "keyboards = [''us'', ''gb'', ''es'', ''fr'', ''de'', ''pt'', ''it'', ''jp'', ''ru'']"

definition mirrors :: "(string \<times> string) list" where
  "mirrors = [(''Global (deb.debian.org)'', ''global''), (''United States'', ''us''),
              (''United Kingdom'', ''uk''), (''Germany'', ''de''), (''France'', ''fr''),
              (''Japan'', ''jp''), (''Australia'', ''au''), (''Brazil'', ''br'')]"

definition timezones :: "string list" where
  "timezones = [''UTC'', ''America/New_York'', ''America/Chicago'', ''America/Denver'',
                ''America/Los_Angeles'', ''Europe/London'', ''Europe/Paris'', ''Europe/Berlin'',
                ''Asia/Tokyo'', ''Asia/Shanghai'', ''Australia/Sydney'']"

definition desktops :: "string list" where
  "desktops = [''xfce'', ''gnome'', ''kde'', ''openbox'']"

definition filesystems :: "string list" where
  "filesystems = [''ext4'', ''btrfs'', ''xfs'']"

subsection \<open>The step methods\<close>

definition clear_content :: "installer \<Rightarrow> installer" where
  "clear_content s = s\<lparr>content := NoScreen, entries_alive := False\<rparr>"

definition welcome_step :: "installer \<Rightarrow> installer" where
  "welcome_step s = s\<lparr>content := Welcome\<rparr>"

definition language_step :: "installer \<Rightarrow> installer" where
  "language_step s = s\<lparr>content := Language\<rparr>"

definition keyboard_step :: "installer \<Rightarrow> installer" where
  "keyboard_step s = s\<lparr>content := Keyboard\<rparr>"

definition network_step :: "installer \<Rightarrow> installer" where
  "network_step s = s\<lparr>content := Network\<rparr>"

definition timezone_step :: "installer \<Rightarrow> installer" where
  "timezone_step s = s\<lparr>content := Timezone\<rparr>"

definition desktop_step :: "installer \<Rightarrow> installer" where
  "desktop_step s = s\<lparr>content := Desktop\<rparr>"

definition drivers_step :: "installer \<Rightarrow> installer" where
  "drivers_step s =
     s\<lparr>content := Drivers,
       nvidia_var := truthy (config_get (config s) ''install_nvidia''),
       nonfree_var := truthy (config_get (config s) ''install_nonfree'')\<rparr>"

text \<open>
  The disk list of \<open>partition_step\<close>: for each line of the stripped output that is not
  empty and contains \<open>disk\<close>, and has at least three fields, the entry
  \<open>/dev/NAME (SIZE)\<close>. The bare \<open>except\<close> replaces the list by the fixed entry.
\<close>

definition disk_entry :: "string \<Rightarrow> string list" where
  "disk_entry line =
     (if line \<noteq> [] \<and> str_in ''disk'' line then
        (let parts = str_split line in
         if length parts \<ge> 3 then [''/dev/'' @ parts ! 0 @ '' ('' @ parts ! 1 @ '')'']
         else [])
      else [])"

definition lsblk_disks :: "lsblk_result \<Rightarrow> string list" where
  "lsblk_disks r =
     (case r of
        LsblkStdout out \<Rightarrow> concat (map disk_entry (str_split_on (CHR 0x0A) (str_strip out)))
      | LsblkRaised \<Rightarrow> [''/dev/sda (Unknown size)''])"

definition partition_step :: "environment \<Rightarrow> installer \<Rightarrow> installer" where
  "partition_step env s = s\<lparr>content := Partition, disks := lsblk_disks (lsblk env)\<rparr>"

definition empty_entries :: entries where
  "empty_entries =
     \<lparr>root_pass_entry = [], root_pass_confirm = [], fullname_entry = [],
      username_entry = [], user_pass_entry = [], user_pass_confirm = [],
      hostname_entry = []\<rparr>"

text \<open>
  \<open>users_step\<close> creates the seven entries empty and then inserts
  \<open>self.config['hostname']\<close> into the last one.
\<close>

definition users_step :: "installer \<Rightarrow> installer" where
  "users_step s =
     (let s1 = s\<lparr>content := Users, entries := Some empty_entries, entries_alive := True\<rparr>
      in case map_of (config s1) ''hostname'' of
           None \<Rightarrow> tk_report KeyError s1
         | Some v \<Rightarrow> s1\<lparr>entries := Some (empty_entries\<lparr>hostname_entry := tcl_str v\<rparr>)\<rparr>)"

text \<open>
  \<open>summary_step\<close> reads the entries back when the attributes exist. \<open>get\<close> on a
  destroyed widget raises \<open>TclError\<close>, before the first assignment to the dict.
\<close>

definition summary_step :: "installer \<Rightarrow> installer" where
  "summary_step s =
     (let s1 = s\<lparr>content := Summary\<rparr>
      in case entries s1 of
           None \<Rightarrow> s1
         | Some e \<Rightarrow>
             if entries_alive s1 then
               s1\<lparr>config :=
                    AList.update ''hostname'' (PyStr (hostname_entry e))
                     (AList.update ''user_fullname'' (PyStr (fullname_entry e))
                      (AList.update ''user_password'' (PyStr (user_pass_entry e))
                       (AList.update ''username'' (PyStr (username_entry e))
                        (AList.update ''root_password'' (PyStr (root_pass_entry e))
                          (config s1)))))\<rparr>
             else tk_report TclError s1)"

text \<open>\<open>install_step\<close> disables both buttons and starts the worker thread.\<close>

definition install_step :: "installer \<Rightarrow> installer" where
  "install_step s =
     s\<lparr>content := Install,
       install_status := ''Preparing installation...'',
       back_btn_state := False,
       next_btn_state := False,
       threads := threads s @ [config s]\<rparr>"

definition steps :: "(environment \<Rightarrow> installer \<Rightarrow> installer) list" where
  "steps =
     [\<lambda>env. welcome_step, \<lambda>env. language_step, \<lambda>env. keyboard_step, \<lambda>env. network_step,
      \<lambda>env. timezone_step, partition_step, \<lambda>env. desktop_step, \<lambda>env. drivers_step,
      \<lambda>env. users_step, \<lambda>env. summary_step, \<lambda>env. install_step]"

text \<open>
  \<open>xs[i]\<close> on a Python list: a negative index counts from the end, an index out of
  range raises \<open>IndexError\<close>.
\<close>

definition list_index :: "'a list \<Rightarrow> int \<Rightarrow> py_error + 'a" where
  "list_index xs i =
     (if 0 \<le> i \<and> i < int (length xs) then Inr (xs ! nat i)
      else if i < 0 \<and> - int (length xs) \<le> i then Inr (xs ! nat (int (length xs) + i))
      else Inl IndexError)"

definition show_step :: "environment \<Rightarrow> installer \<Rightarrow> installer" where
  "show_step env s =
     (let s1 = clear_content s;
          s2 = s1\<lparr>back_btn_state := (current_step s1 > 0)\<rparr>;
          s3 = (if current_step s2 = int (length steps) - 1 then
                  s2\<lparr>next_btn_text := ''Restart'', next_btn_command := CmdReboot\<rparr>
                else if current_step s2 = int (length steps) - 2 then
                  s2\<lparr>next_btn_text := ''Install''\<rparr>
                else s2\<lparr>next_btn_text := ''Next'', next_btn_command := CmdNextStep\<rparr>)
      in case list_index steps (current_step s3) of
           Inl err \<Rightarrow> tk_report err s3
         | Inr step \<Rightarrow> step env s3)"

subsection \<open>Validation and navigation\<close>

text \<open>
  The checks of the users step, in the order of the source: the text of the first
  error box, or \<open>None\<close> when every check passes.
\<close>

definition users_error :: "entries \<Rightarrow> string option" where
  "users_error e =
     (if root_pass_entry e = [] then Some ''Root password is required.''
      else if root_pass_entry e \<noteq> root_pass_confirm e then Some ''Root passwords do not match.''
      else if username_entry e = [] then Some ''Username is required.''
      else if \<not> re_match_username (username_entry e) then
        Some ''Username must start with a letter and contain only lowercase letters and numbers.''
      else if user_pass_entry e = [] then Some ''User password is required.''
      else if user_pass_entry e \<noteq> user_pass_confirm e then Some ''User passwords do not match.''
      else if hostname_entry e = [] then Some ''Computer name is required.''
      else if \<not> re_match_hostname (hostname_entry e) then
        Some ''Computer name can only contain letters, numbers, and hyphens.''
      else None)"

text \<open>The five \<open>update_config\<close> calls that follow the checks, in their order.\<close>

definition store_entries :: "entries \<Rightarrow> installer \<Rightarrow> installer" where
  "store_entries e s =
     update_config ''user_fullname'' (PyStr (fullname_entry e))
      (update_config ''hostname'' (PyStr (hostname_entry e))
       (update_config ''username'' (PyStr (username_entry e))
        (update_config ''user_password'' (PyStr (user_pass_entry e))
         (update_config ''root_password'' (PyStr (root_pass_entry e)) s))))"

text \<open>
  \<open>validate_current_step\<close> returns its boolean together with the installer it leaves
  (error boxes shown, dict updated). Reading a destroyed entry raises before anything
  is changed.
\<close>

definition validate_current_step :: "installer \<Rightarrow> py_error + (bool \<times> installer)" where
  "validate_current_step s =
     (if current_step s = 5 then
        (if \<not> truthy (config_get (config s) ''target_disk'') then
           Inr (False, messagebox (ShowError ''Error'' ''Please select a target disk.'') s)
         else Inr (True, s))
      else if current_step s = 8 then
        (case entries s of
           None \<Rightarrow> Inr (True, s)
         | Some e \<Rightarrow>
             if \<not> entries_alive s then Inl TclError
             else (case users_error e of
                     Some msg \<Rightarrow> Inr (False, messagebox (ShowError ''Error'' msg) s)
                   | None \<Rightarrow> Inr (True, store_entries e s)))
      else Inr (True, s))"

definition advance :: "environment \<Rightarrow> installer \<Rightarrow> installer" where
  "advance env s =
     (case validate_current_step s of
        Inl err \<Rightarrow> tk_report err s
      | Inr (ok, s1) \<Rightarrow>
          if ok then show_step env (s1\<lparr>current_step := current_step s1 + 1\<rparr>) else s1)"

text \<open>
  \<open>next_step\<close>: the summary step and the other steps run the same two lines
  (\<open>advance\<close>); on the install step it does nothing.
\<close>

definition next_step :: "environment \<Rightarrow> installer \<Rightarrow> installer" where
  "next_step env s =
     (if current_step s = int (length steps) - 2 then advance env s
      else if current_step s = int (length steps) - 1 then s
      else advance env s)"

definition prev_step :: "environment \<Rightarrow> installer \<Rightarrow> installer" where
  "prev_step env s =
     (if current_step s > 0 then show_step env (s\<lparr>current_step := current_step s - 1\<rparr>)
      else s)"

definition quit_installer :: "environment \<Rightarrow> installer \<Rightarrow> installer" where
  "quit_installer env s =
     (let s1 = messagebox (AskOkCancel ''Quit'' ''Are you sure you want to quit the installer?'') s
      in if askokcancel env then s1\<lparr>quit := True\<rparr> else s1)"

subsection \<open>The callbacks the worker hands to the main loop\<close>

text \<open>
  \<open>perform_installation\<close> runs in a worker thread and touches the window only through
  \<open>self.root.after(0, f)\<close>, which makes the main loop call \<open>f\<close> later. The four shapes
  of \<open>f\<close> in the source:
  \<^item> \<open>lambda s=status: self.install_status.config(text=s)\<close> and the same with the fixed
    text: \<open>StatusConfig\<close>;
  \<^item> \<open>self.installation_complete\<close>;
  \<^item> \<open>lambda: self.installation_error(msg)\<close> with \<open>msg\<close> a local that stays bound:
    \<open>InstallationError\<close>;
  \<^item> \<open>lambda: self.installation_error(str(e))\<close> of the \<open>except\<close> clause:
    \<open>InstallationErrorStrE\<close>. This lambda reads the variable \<open>e\<close> of the worker's frame
    when it is called, not when it is created.

  The progress bar and the status label are attributes that \<open>install_step\<close> creates:
  until it has run for the first time (\<open>threads\<close> is empty until then) reading them
  raises \<open>AttributeError\<close>. Afterwards the widgets exist only while the install step is
  shown, and a call on them at another time raises \<open>TclError\<close>.
\<close>

datatype callback =
  StatusConfig string | InstallationComplete | InstallationError string
  | InstallationErrorStrE

definition installation_complete :: "environment \<Rightarrow> installer \<Rightarrow> installer" where
  "installation_complete env s =
     (if threads s = [] then tk_report AttributeError s
      else if content s \<noteq> Install then tk_report TclError s
      else quit_installer env
             (messagebox
               (ShowInfo ''Installation Complete''
                  (''on1OS has been installed successfully!'' @ [CHR 0x0A, CHR 0x0A]
                     @ ''Please reboot your computer.''))
               (s\<lparr>install_status := ''Installation completed successfully!''\<rparr>)))"

definition installation_error :: "string \<Rightarrow> installer \<Rightarrow> installer" where
  "installation_error error_msg s =
     (if threads s = [] then tk_report AttributeError s
      else if content s \<noteq> Install then tk_report TclError s
      else (messagebox
              (ShowError ''Installation Error''
                 (''Installation failed with error:'' @ [CHR 0x0A] @ error_msg))
              (s\<lparr>install_status := ''Installation failed!''\<rparr>))
             \<lparr>back_btn_state := True, next_btn_state := True\<rparr>)"

text \<open>
  \<open>run_callback env cell f s\<close>: the main loop calls \<open>f\<close>; \<open>cell\<close> is what the variable
  \<open>e\<close> of the frame that created \<open>f\<close> holds at that moment (\<open>None\<close>: unbound, and reading
  it raises \<open>NameError\<close>).
\<close>

definition run_callback ::
  "environment \<Rightarrow> string option \<Rightarrow> callback \<Rightarrow> installer \<Rightarrow> installer" where
  "run_callback env cell f s =
     (case f of
        StatusConfig text \<Rightarrow>
          if threads s = [] then tk_report AttributeError s
          else if content s \<noteq> Install then tk_report TclError s
          else s\<lparr>install_status := text\<rparr>
      | InstallationComplete \<Rightarrow> installation_complete env s
      | InstallationError msg \<Rightarrow> installation_error msg s
      | InstallationErrorStrE \<Rightarrow>
          (case cell of None \<Rightarrow> tk_report NameError s | Some e \<Rightarrow> installation_error e s))"

fun mainloop ::
  "environment \<Rightarrow> string option \<Rightarrow> callback list \<Rightarrow> installer \<Rightarrow> installer" where
  "mainloop env cell [] s = s"
| "mainloop env cell (f # fs) s = mainloop env cell fs (run_callback env cell f s)"

subsection \<open>Events\<close>

text \<open>
  Everything that can call into the installer: the three buttons (a disabled button
  does not call its command), a direct call of \<open>next_step\<close> or \<open>prev_step\<close>, the
  selection widgets of the step that is shown (a read-only combobox and a radio button
  offer the listed values only; the number is the position chosen), typing into the
  entries of the users step, and a callback of the worker.
\<close>

datatype event =
  NextStep | PrevStep | PressNext | PressBack | PressQuit
  | ChooseLanguage nat | ChooseKeyboard nat | ChooseMirror nat | ChooseTimezone nat
  | ChooseDisk nat | ChooseFilesystem nat | ChooseDesktop nat
  | ToggleNvidia | ToggleNonfree
  | EditEntries entries
  | Callback "string option" callback

definition choose_value ::
  "screen \<Rightarrow> string list \<Rightarrow> string \<Rightarrow> nat \<Rightarrow> installer \<Rightarrow> installer" where
  "choose_value scr vals key i s =
     (if content s = scr \<and> i < length vals then update_config key (PyStr (vals ! i)) s
      else s)"

fun fire :: "environment \<Rightarrow> event \<Rightarrow> installer \<Rightarrow> installer" where
  "fire env NextStep s = next_step env s"
| "fire env PrevStep s = prev_step env s"
| "fire env PressNext s =
     (if next_btn_state s then
        (case next_btn_command s of
           CmdNextStep \<Rightarrow> next_step env s
         | CmdReboot \<Rightarrow> s\<lparr>rebooted := True\<rparr>)
      else s)"
| "fire env PressBack s = (if back_btn_state s then prev_step env s else s)"
| "fire env PressQuit s = quit_installer env s"
| "fire env (ChooseLanguage i) s = choose_value Language languages ''language'' i s"
| "fire env (ChooseKeyboard i) s = choose_value Keyboard keyboards ''keyboard'' i s"
| "fire env (ChooseMirror i) s =
     (if content s = Network \<and> i < length mirrors then
        (case filter (\<lambda>(name, code). name = fst (mirrors ! i)) mirrors of
           [] \<Rightarrow> tk_report IndexError s
         | (name, code) # _ \<Rightarrow> update_config ''mirror_country'' (PyStr code) s)
      else s)"
| "fire env (ChooseTimezone i) s = choose_value Timezone timezones ''timezone'' i s"
| "fire env (ChooseDisk i) s =
     (if content s = Partition \<and> i < length (disks s) then
        (case str_split (disks s ! i) of
           [] \<Rightarrow> tk_report IndexError s
         | d # _ \<Rightarrow> update_config ''target_disk'' (PyStr d) s)
      else s)"
| "fire env (ChooseFilesystem i) s = choose_value Partition filesystems ''filesystem'' i s"
| "fire env (ChooseDesktop i) s = choose_value Desktop desktops ''desktop_environment'' i s"
| "fire env ToggleNvidia s =
     (if content s = Drivers then
        update_config ''install_nvidia'' (PyBool (\<not> nvidia_var s))
          (s\<lparr>nvidia_var := \<not> nvidia_var s\<rparr>)
      else s)"
| "fire env ToggleNonfree s =
     (if content s = Drivers then
        update_config ''install_nonfree'' (PyBool (\<not> nonfree_var s))
          (s\<lparr>nonfree_var := \<not> nonfree_var s\<rparr>)
      else s)"
| "fire env (EditEntries e) s =
     (if content s = Users \<and> entries_alive s \<and> entries s \<noteq> None then s\<lparr>entries := Some e\<rparr>
      else s)"
| "fire env (Callback cell f) s = run_callback env cell f s"

fun run :: "(environment \<times> event) list \<Rightarrow> installer \<Rightarrow> installer" where
  "run [] s = s"
| "run ((env, ev) # rest) s = run rest (fire env ev s)"

text \<open>\<open>__init__\<close> and \<open>setup_ui\<close>, which ends by showing step 0.\<close>

definition new_installer :: "environment \<Rightarrow> installer" where
  "new_installer env =
     show_step env
       \<lparr>config = initial_config, current_step = 0, content = NoScreen,
        back_btn_state = True, next_btn_state = True, next_btn_text = ''Next'',
        next_btn_command = CmdNextStep, disks = [], nvidia_var = False, nonfree_var = False,
        entries = None, entries_alive = False, install_status = [], dialogs = [],
        tk_errors = [], threads = [], rebooted = False, quit = False\<rparr>"

section \<open>The worker: \<open>perform_installation\<close>\<close>

text \<open>
  What the worker meets outside the program: whether the backend script exists, whether
  opening the configuration file raises (with the text of the exception), what
  \<open>subprocess.Popen\<close> does (raises, or gives a process), and the process itself:
  \<open>polls p k\<close> is the value of \<open>process.poll()\<close> at the \<open>k\<close>-th test of the loop (\<open>None\<close>
  while the backend runs, its return code afterwards), \<open>readlines p k\<close> what
  \<open>process.stdout.readline()\<close> gives in the \<open>k\<close>-th round (a line, or an exception), and
  \<open>communicate_output p\<close> what \<open>process.communicate()[0]\<close> returns after the loop: the
  output the loop has not read.
\<close>

record process =
  polls :: "nat \<Rightarrow> int option"
  readlines :: "nat \<Rightarrow> string + string"
  communicate_output :: string

record run_environment =
  backend_exists :: bool
  open_raises :: "string option"
  popen_result :: "string + process"

text \<open>
  The document \<open>json.dump(self.config, f, indent=2)\<close> writes, as the JSON value it
  denotes: an object with the dict's keys in the dict's order. Indentation and string
  escapes belong to the text of the file, not to the value.
\<close>

datatype json = JNull | JString string | JBool bool | JObject "(string \<times> json) list"

fun to_json :: "pyval \<Rightarrow> json" where
  "to_json PyNone = JNull"
| "to_json (PyStr s) = JString s"
| "to_json (PyBool b) = JBool b"

definition json_dump :: "(string \<times> pyval) list \<Rightarrow> json" where
  "json_dump c = JObject (map (\<lambda>(k, v). (k, to_json v)) c)"

definition backend_script :: string where
  "backend_script = ''/usr/local/share/on1os-installer/backend.sh''"

definition config_file :: string where
  "config_file = ''/tmp/on1os-install-config.json''"

text \<open>
  One line of backend output: an empty line and a line without \<open>] \<close> schedule nothing;
  otherwise the status is what follows the first \<open>] \<close>, stripped. (\<open>after_first\<close> is
  \<open>None\<close> exactly when \<open>] \<close> does not occur in the line.)
\<close>

definition status_callbacks :: "string \<Rightarrow> callback list" where
  "status_callbacks line =
     (if line \<noteq> [] then
        (case after_first ''] '' line of
           None \<Rightarrow> []
         | Some rest \<Rightarrow> [StatusConfig (str_strip rest)])
      else [])"

text \<open>
  The loop \<open>while process.poll() is None\<close>. It returns the return code, or the text of
  the exception \<open>readline\<close> raised, with the callbacks scheduled so far; it does not
  return while the backend keeps running.
\<close>

partial_function (option) monitor ::
  "process \<Rightarrow> nat \<Rightarrow> callback list \<Rightarrow> ((string + int) \<times> callback list) option" where
  "monitor p k fs =
     (case polls p k of
        Some rc \<Rightarrow> Some (Inr rc, fs)
      | None \<Rightarrow>
          (case readlines p k of
             Inl exn \<Rightarrow> Some (Inl exn, fs)
           | Inr line \<Rightarrow> monitor p (Suc k) (fs @ status_callbacks line)))"

declare monitor.simps [code]

text \<open>
  What a run of the worker leaves: the file system (paths to documents), the argument
  lists \<open>Popen\<close> was called with, the callbacks handed to the main loop in their order,
  and \<open>e_cell\<close>, the variable \<open>e\<close> of the worker's frame once the function has returned.

  \<open>except Exception as e\<close> binds \<open>e\<close> for the clause only: Python unbinds the name when
  the clause ends, as if the clause were wrapped in \<open>try: ... finally: del e\<close>. The clause
  here only schedules the lambda and ends, so \<open>e\<close> is unbound when the main loop comes
  to call the lambda.
\<close>

record worker_result =
  files :: "string \<Rightarrow> json option"
  popen_calls :: "string list list"
  callbacks :: "callback list"
  e_cell :: "string option"

definition except_clause ::
  "string \<Rightarrow> (string \<Rightarrow> json option) \<Rightarrow> string list list \<Rightarrow> callback list \<Rightarrow> worker_result" where
  "except_clause e fs calls cbs =
     (let cell = Some e;
          cbs1 = cbs @ [InstallationErrorStrE];
          cell = None
      in \<lparr>files = fs, popen_calls = calls, callbacks = cbs1, e_cell = cell\<rparr>)"

definition perform_installation ::
  "(string \<times> pyval) list \<Rightarrow> run_environment \<Rightarrow> (string \<Rightarrow> json option) \<Rightarrow> worker_result option" where
  "perform_installation cfg env fs =
     (if \<not> backend_exists env then
        Some \<lparr>files = fs, popen_calls = [],
              callbacks = [InstallationError (''Backend script not found: '' @ backend_script)],
              e_cell = None\<rparr>
      else
        (case open_raises env of
           Some e \<Rightarrow> Some (except_clause e fs [] [])
         | None \<Rightarrow>
             (let fs1 = fs(config_file \<mapsto> json_dump cfg);
                  cbs = [StatusConfig ''Starting installation...''];
                  calls = [[backend_script]]
              in case popen_result env of
                   Inl e \<Rightarrow> Some (except_clause e fs1 calls cbs)
                 | Inr p \<Rightarrow>
                     (case monitor p 0 cbs of
                        None \<Rightarrow> None
                      | Some (Inl e, cbs1) \<Rightarrow> Some (except_clause e fs1 calls cbs1)
                      | Some (Inr rc, cbs1) \<Rightarrow>
                          if rc = 0 then
                            Some \<lparr>files = fs1, popen_calls = calls,
                                  callbacks = cbs1 @ [InstallationComplete], e_cell = None\<rparr>
                          else
                            Some \<lparr>files = fs1, popen_calls = calls,
                                  callbacks = cbs1 @ [InstallationError (communicate_output p)],
                                  e_cell = None\<rparr>))))"

section \<open>The engine's Disk Preparation\<close>

text \<open>
  Modelled from the spec: the outcome of a stage of the installation engine and the
  operations of its Disk Preparation stage. The engine is the backend script, which is
  not among the sources. The error taxonomy of the spec: \<open>PreconditionFailed\<close> (device
  missing, device is the live medium), \<open>ResourceBusy\<close> (target disk already mounted or
  in use), \<open>ToolExecutionFailed\<close> (an external command returns non-zero; the tool's
  diagnostic text is preserved). The stage destroys the partition table and creates the
  partition, formats it with the requested filesystem, and mounts it at the work root.
\<close>

datatype stage_error = PreconditionFailed | ResourceBusy | ToolExecutionFailed string

datatype disk_operation =
  WritePartitionTable string | FormatPartition string string | MountWorkRoot string

text \<open>
  Modelled from the spec: the machine as the engine can observe it: the block devices
  that exist, the device that hosts the live medium, the devices mounted or in use, and
  for each operation whether its tool fails (with its diagnostic text).
\<close>

record machine =
  block_devices :: "string list"
  live_medium :: string
  in_use :: "string list"
  tool_diagnostic :: "disk_operation \<Rightarrow> string option"

text \<open>
  Modelled from the spec: the operations of a stage run in their order, and the first
  failure ends the stage. The result is the list of the operations that ran, with the
  failure if there was one.
\<close>

fun run_operations ::
  "(disk_operation \<Rightarrow> string option) \<Rightarrow> disk_operation list
     \<Rightarrow> disk_operation list \<times> stage_error option" where
  "run_operations tool [] = ([], None)"
| "run_operations tool (x # xs) =
     (case tool x of
        Some diag \<Rightarrow> ([x], Some (ToolExecutionFailed diag))
      | None \<Rightarrow> (case run_operations tool xs of (performed, res) \<Rightarrow> (x # performed, res)))"

text \<open>
  Modelled from the spec: Disk Preparation, which is missing from the sources with the
  rest of the backend script. Its preconditions are that the device exists and is not
  the device hosting the live medium itself; they are checked before anything is
  written. A device that is busy is refused next. Then the operations run on the
  target disk with the filesystem of the configuration.
\<close>

definition disk_preparation ::
  "machine \<Rightarrow> (string \<times> pyval) list \<Rightarrow> disk_operation list \<times> stage_error option" where
  "disk_preparation m cfg =
     (case config_get cfg ''target_disk'' of
        PyStr d \<Rightarrow>
          if d \<notin> set (block_devices m) \<or> d = live_medium m then ([], Some PreconditionFailed)
          else if d \<in> set (in_use m) then ([], Some ResourceBusy)
          else (case config_get cfg ''filesystem'' of
                  PyStr fs \<Rightarrow>
                    run_operations (tool_diagnostic m)
                      [WritePartitionTable d, FormatPartition d fs, MountWorkRoot d]
                | _ \<Rightarrow> ([], Some PreconditionFailed))
      | _ \<Rightarrow> ([], Some PreconditionFailed))"

section \<open>The engine's handling of the passwords\<close>

text \<open>
  Modelled from the spec: the document the engine reads, with the two secrets taken
  out. The engine is the backend script, which is not among the sources; the
  configuration record is delivered to it as a single document before the run starts,
  and \<open>root_password\<close> and \<open>user_password\<close> are its secrets.
\<close>

definition without_passwords :: "json \<Rightarrow> json" where
  "without_passwords d =
     (case d of
        JObject kvs \<Rightarrow>
          JObject (filter (\<lambda>(k, v). k \<noteq> ''root_password'' \<and> k \<noteq> ''user_password'') kvs)
      | _ \<Rightarrow> d)"

text \<open>
  Modelled from the spec: the secrets handling of the engine, as far as the worker can
  observe the engine. The backend is started without arguments; what the worker reads
  from its pipe (standard output and standard error together, so the Progress Reporter
  stream and the log output) and its return code are given by the document. The spec
  says that secrets never appear in the Progress Reporter stream or in log output:
  what the engine lets observe is the same for two documents that differ in the
  secrets only.
\<close>

definition engine_keeps_secrets :: "(json \<Rightarrow> process) \<Rightarrow> bool" where
  "engine_keeps_secrets engine = (\<forall>d. engine d = engine (without_passwords d))"

text \<open>
  Modelled from the spec: what the worker meets when the backend is that engine: the
  script is there or not, \<open>open\<close> and \<open>Popen\<close> raise or not, and the process that
  \<open>Popen\<close> gives is the engine on the document of the dict, which the worker has
  written to the configuration file just before.
\<close>

definition engine_environment ::
  "bool \<Rightarrow> string option \<Rightarrow> string option \<Rightarrow> (json \<Rightarrow> process) \<Rightarrow> (string \<times> pyval) list
     \<Rightarrow> run_environment" where
  "engine_environment script_there open_exn popen_exn engine c =
     \<lparr>backend_exists = script_there, open_raises = open_exn,
      popen_result = (case popen_exn of
                        Some e \<Rightarrow> Inl e
                      | None \<Rightarrow> Inr (engine (json_dump c)))\<rparr>"

section \<open>Properties of configurations and states\<close>

text \<open>A target disk has been selected: the test of the partition step's validation.\<close>

definition disk_selected :: "(string \<times> pyval) list \<Rightarrow> bool" where
  "disk_selected c = truthy (config_get c ''target_disk'')"

text \<open>The dict holds the two passwords, the user name and the host name of the entries.\<close>

definition stored :: "entries \<Rightarrow> (string \<times> pyval) list \<Rightarrow> bool" where
  "stored e c =
     (config_get c ''root_password'' = PyStr (root_pass_entry e) \<and>
      config_get c ''user_password'' = PyStr (user_pass_entry e) \<and>
      config_get c ''username'' = PyStr (username_entry e) \<and>
      config_get c ''hostname'' = PyStr (hostname_entry e))"

text \<open>The dict holds values that passed the checks of the users step.\<close>

definition users_validated :: "(string \<times> pyval) list \<Rightarrow> bool" where
  "users_validated c = (\<exists>e. users_error e = None \<and> stored e c)"

text \<open>The keys of a JSON object and the strings among its values.\<close>

fun json_keys :: "json \<Rightarrow> string list" where
  "json_keys (JObject kvs) = map fst kvs"
| "json_keys _ = []"

fun json_strings :: "json \<Rightarrow> string list" where
  "json_strings (JObject kvs) = concat (map (\<lambda>(k, v). case v of JString s \<Rightarrow> [s] | _ \<Rightarrow> []) kvs)"
| "json_strings (JString s) = [s]"
| "json_strings _ = []"

text \<open>
  The document that is in place when \<open>Popen\<close> has been called: \<open>None\<close> when the worker
  ends without calling it.
\<close>

definition delivered_document ::
  "(string \<times> pyval) list \<Rightarrow> run_environment \<Rightarrow> (string \<Rightarrow> json option) \<Rightarrow> json option" where
  "delivered_document cfg env fs =
     (case perform_installation cfg env fs of
        None \<Rightarrow> None
      | Some r \<Rightarrow> if popen_calls r = [] then None else files r config_file)"

text \<open>
  The dict after \<open>update_config\<close> has stored the two passwords, as the validation of
  the users step does.
\<close>

definition with_passwords ::
  "string \<Rightarrow> string \<Rightarrow> (string \<times> pyval) list \<Rightarrow> (string \<times> pyval) list" where
  "with_passwords rp up c =
     AList.update ''user_password'' (PyStr up) (AList.update ''root_password'' (PyStr rp) c)"

text \<open>The invariant of the wizard that the navigation proofs carry.\<close>

definition wizard_inv :: "installer \<Rightarrow> bool" where
  "wizard_inv s =
     (0 \<le> current_step s \<and> current_step s \<le> 10 \<and>
      (current_step s = 8 \<longrightarrow> entries s \<noteq> None) \<and>
      (6 \<le> current_step s \<or> threads s \<noteq> [] \<longrightarrow> disk_selected (config s)) \<and>
      (9 \<le> current_step s \<or> threads s \<noteq> [] \<longrightarrow> users_validated (config s)) \<and>
      (\<forall>c \<in> set (threads s). disk_selected c \<and> users_validated c) \<and>
      config_get (config s) ''filesystem'' \<in> PyStr ` set filesystems \<and>
      map fst (config s) = map fst initial_config)"

subsection \<open>Concrete inputs\<close>

text \<open>
  A machine on which \<open>lsblk\<close> lists two disks, entries a user could type (the user
  password holds shell metacharacters), and the presses that lead from the first screen
  to the users step and on to the install step.
\<close>

definition two_disks :: environment where
  "two_disks =
     \<lparr>lsblk = LsblkStdout (''sda 100G disk'' @ [CHR 0x0A] @ ''sdb 8G disk'' @ [CHR 0x0A]),
      askokcancel = False\<rparr>"

definition alice :: entries where
  "alice =
     \<lparr>root_pass_entry = ''r00t;rm'', root_pass_confirm = ''r00t;rm'',
      fullname_entry = ''Alice'', username_entry = ''alice'',
      user_pass_entry = ''$(id) | x'', user_pass_confirm = ''$(id) | x'',
      hostname_entry = ''test-host''\<rparr>"

text \<open>Alice's entries with a user name that ends in a newline (pasted text keeps it).\<close>

definition newline_user :: entries where
  "newline_user = alice\<lparr>username_entry := ''bob'' @ [CHR 0x0A]\<rparr>"

text \<open>
  The same with a host name that ends in a newline too, and the presses that lead with
  these entries from the first screen to the install step.
\<close>

definition newline_entries :: entries where
  "newline_entries =
     alice\<lparr>username_entry := ''bob'' @ [CHR 0x0A], hostname_entry := ''host'' @ [CHR 0x0A]\<rparr>"

definition to_partition_step :: "(environment \<times> event) list" where
  "to_partition_step = replicate 5 (two_disks, PressNext)"

definition to_users_step :: "(environment \<times> event) list" where
  "to_users_step =
     to_partition_step @ [(two_disks, ChooseDisk 1)] @ replicate 3 (two_disks, PressNext)"

definition to_install_step :: "(environment \<times> event) list" where
  "to_install_step =
     to_users_step @ [(two_disks, EditEntries alice), (two_disks, PressNext),
                      (two_disks, PressNext)]"

definition to_install_step_newline :: "(environment \<times> event) list" where
  "to_install_step_newline =
     to_users_step @ [(two_disks, EditEntries newline_entries), (two_disks, PressNext),
                      (two_disks, PressNext)]"

text \<open>
  The machine with two disks as the engine sees it, started from a USB stick: the live
  medium is on \<open>/dev/sdb\<close>.
\<close>

definition usb_stick_machine :: machine where
  "usb_stick_machine =
     \<lparr>block_devices = [''/dev/sda'', ''/dev/sdb''], live_medium = ''/dev/sdb'',
      in_use = [''/dev/sdb''], tool_diagnostic = (\<lambda>x. None)\<rparr>"

text \<open>A backend that prints two lines and exits with the given return code.\<close>

definition two_lines :: "int \<Rightarrow> process" where
  "two_lines rc =
     \<lparr>polls = (\<lambda>k. if k < 2 then None else Some rc),
      readlines = (\<lambda>k. if k = 0 then Inr (''[1] Partitioning disk'' @ [CHR 0x0A])
                        else Inr (''copying'' @ [CHR 0x0A])),
      communicate_output = ''mkfs failed''\<rparr>"

definition backend_runs :: "int \<Rightarrow> run_environment" where
  "backend_runs rc =
     \<lparr>backend_exists = True, open_raises = None, popen_result = Inr (two_lines rc)\<rparr>"

definition popen_fails :: run_environment where
  "popen_fails =
     \<lparr>backend_exists = True, open_raises = None,
      popen_result = Inl ''[Errno 13] Permission denied''\<rparr>"

text \<open>
  Two engines. The first reports the target disk it finds in the document, then fails
  with return code 3. The second prints the root password it finds there.
\<close>

definition json_field :: "json \<Rightarrow> string \<Rightarrow> string" where
  "json_field d k =
     (case d of
        JObject kvs \<Rightarrow> (case map_of kvs k of Some (JString s) \<Rightarrow> s | _ \<Rightarrow> [])
      | _ \<Rightarrow> [])"

definition reporting_engine :: "json \<Rightarrow> process" where
  "reporting_engine d =
     \<lparr>polls = (\<lambda>k. if k < 2 then None else Some 3),
      readlines = (\<lambda>k. if k = 0 then
                          Inr (''[1] Partitioning '' @ json_field d ''target_disk'' @ [CHR 0x0A])
                        else Inr (''copying'' @ [CHR 0x0A])),
      communicate_output = ''mkfs failed''\<rparr>"

definition echoing_engine :: "json \<Rightarrow> process" where
  "echoing_engine d =
     \<lparr>polls = (\<lambda>k. if k < 1 then None else Some 0),
      readlines = (\<lambda>k. Inr (''[2] Setting password '' @ json_field d ''root_password''
                              @ [CHR 0x0A])),
      communicate_output = []\<rparr>"

section \<open>Lemmas about the string operations\<close>

lemma helper_split_ws_nonempty: "t \<in> set (split_ws tok s) \<Longrightarrow> t \<noteq> []"
  by (induction tok s rule: split_ws.induct) (auto split: if_splits)

lemma helper_after_first_None: "after_first sep s = None \<longleftrightarrow> \<not> str_in sep s"
  by (induction sep s rule: after_first.induct) auto

lemma helper_newline_classes:
  "\<not> username_class (CHR 0x0A)" "\<not> hostname_class (CHR 0x0A)"
  by (simp_all add: username_class_def hostname_class_def in_a_z_def in_A_Z_def in_0_9_def)

lemma helper_re_dollar_dropWhile:
  assumes "\<not> P (CHR 0x0A)"
  shows "re_dollar (dropWhile P cs) \<longleftrightarrow>
           list_all P cs \<or> (\<exists>ds. cs = ds @ [CHR 0x0A] \<and> list_all P ds)"
proof -
  have a: "dropWhile P cs = [] \<longleftrightarrow> list_all P cs"
    by (simp add: dropWhile_eq_Nil_conv list_all_iff)
  have b: "dropWhile P cs = [CHR 0x0A] \<longleftrightarrow> (\<exists>ds. cs = ds @ [CHR 0x0A] \<and> list_all P ds)"
  proof
    assume h: "dropWhile P cs = [CHR 0x0A]"
    have "cs = takeWhile P cs @ dropWhile P cs" by simp
    with h have "cs = takeWhile P cs @ [CHR 0x0A]" by simp
    moreover have "list_all P (takeWhile P cs)"
      by (simp add: list_all_iff) (meson set_takeWhileD)
    ultimately show "\<exists>ds. cs = ds @ [CHR 0x0A] \<and> list_all P ds" by blast
  next
    assume "\<exists>ds. cs = ds @ [CHR 0x0A] \<and> list_all P ds"
    then obtain ds where "cs = ds @ [CHR 0x0A]" "list_all P ds" by blast
    with assms show "dropWhile P cs = [CHR 0x0A]"
      by (simp add: list_all_iff dropWhile_append2)
  qed
  show ?thesis unfolding re_dollar_def a b ..
qed

lemma helper_re_match_username:
  "re_match_username s \<longleftrightarrow>
     spec_username_fullmatch s \<or>
     (\<exists>t. s = t @ [CHR 0x0A] \<and> spec_username_fullmatch t)"
proof (cases s)
  case Nil
  then show ?thesis by (simp add: spec_username_fullmatch_def)
next
  case (Cons c cs)
  have nl: "\<not> in_a_z (CHR 0x0A)" by (simp add: in_a_z_def)
  have "(\<exists>t. c # cs = t @ [CHR 0x0A] \<and> spec_username_fullmatch t) \<longleftrightarrow>
        (in_a_z c \<and> (\<exists>ds. cs = ds @ [CHR 0x0A] \<and> list_all username_class ds))"
    (is "?L \<longleftrightarrow> ?R")
  proof
    assume ?L
    then obtain t where t: "c # cs = t @ [CHR 0x0A]" "spec_username_fullmatch t" by blast
    from t(2) obtain d ds where "t = d # ds" "in_a_z d" "list_all username_class ds"
      by (auto simp: spec_username_fullmatch_def split: list.splits)
    with t(1) show ?R by auto
  next
    assume ?R
    then obtain ds where "in_a_z c" "cs = ds @ [CHR 0x0A]" "list_all username_class ds" by blast
    then have "c # cs = (c # ds) @ [CHR 0x0A] \<and> spec_username_fullmatch (c # ds)"
      by (simp add: spec_username_fullmatch_def)
    then show ?L by blast
  qed
  with Cons show ?thesis
    by (auto simp: helper_re_dollar_dropWhile[of username_class, OF helper_newline_classes(1)]
        spec_username_fullmatch_def)
qed

lemma helper_re_match_hostname:
  "re_match_hostname s \<longleftrightarrow>
     spec_hostname_fullmatch s \<or>
     (\<exists>t. s = t @ [CHR 0x0A] \<and> spec_hostname_fullmatch t)"
proof -
  have tw: "takeWhile hostname_class s \<noteq> [] \<longleftrightarrow> (s \<noteq> [] \<and> hostname_class (hd s))"
    by (cases s) auto
  show ?thesis
    unfolding re_match_hostname_def tw helper_re_dollar_dropWhile[of hostname_class, OF helper_newline_classes(2)]
      spec_hostname_fullmatch_def
    by (cases s) (auto simp: helper_newline_classes Cons_eq_append_conv)
qed

lemma helper_users_error_None:
  "users_error e = None \<longleftrightarrow>
     root_pass_entry e \<noteq> [] \<and> root_pass_entry e = root_pass_confirm e \<and>
     re_match_username (username_entry e) \<and>
     user_pass_entry e \<noteq> [] \<and> user_pass_entry e = user_pass_confirm e \<and>
     re_match_hostname (hostname_entry e)"
  by (cases "username_entry e"; cases "hostname_entry e")
     (auto simp: users_error_def re_match_hostname_def)

section \<open>Lemmas about the steps\<close>

lemmas step_defs = welcome_step_def language_step_def keyboard_step_def network_step_def
      timezone_step_def partition_step_def desktop_step_def drivers_step_def users_step_def
      summary_step_def install_step_def

lemma helper_list_index_mem: "list_index xs i = Inr x \<Longrightarrow> x \<in> set xs"
  by (auto simp: list_index_def Let_def split: if_splits)

lemma helper_steps_config:
  "f \<in> set steps \<Longrightarrow> \<not> entries_alive s \<Longrightarrow> config (f env s) = config s"
  by (auto simp: steps_def step_defs tk_report_def Let_def split: option.splits)

lemma helper_show_step_config: "config (show_step env s) = config s"
  by (auto simp: show_step_def Let_def clear_content_def tk_report_def helper_steps_config
      dest!: helper_list_index_mem split: sum.splits)

lemma helper_steps_current:
  "f \<in> set steps \<Longrightarrow> current_step (f env s) = current_step s"
  by (auto simp: steps_def step_defs tk_report_def Let_def split: option.splits)

lemma helper_show_step_current: "current_step (show_step env s) = current_step s"
  by (auto simp: show_step_def Let_def clear_content_def tk_report_def helper_steps_current
      dest!: helper_list_index_mem split: sum.splits)

lemma helper_length_steps: "length steps = 11" by (simp add: steps_def)

lemma helper_step_range:
  "0 \<le> (i::int) \<Longrightarrow> i \<le> 10 \<Longrightarrow>
     i = 0 \<or> i = 1 \<or> i = 2 \<or> i = 3 \<or> i = 4 \<or> i = 5 \<or> i = 6 \<or> i = 7 \<or> i = 8 \<or> i = 9 \<or> i = 10"
  by arith

lemma helper_list_index_steps:
  "list_index steps 0 = Inr (\<lambda>env. welcome_step)"
  "list_index steps 1 = Inr (\<lambda>env. language_step)"
  "list_index steps 2 = Inr (\<lambda>env. keyboard_step)"
  "list_index steps 3 = Inr (\<lambda>env. network_step)"
  "list_index steps 4 = Inr (\<lambda>env. timezone_step)"
  "list_index steps 5 = Inr partition_step"
  "list_index steps 6 = Inr (\<lambda>env. desktop_step)"
  "list_index steps 7 = Inr (\<lambda>env. drivers_step)"
  "list_index steps 8 = Inr (\<lambda>env. users_step)"
  "list_index steps 9 = Inr (\<lambda>env. summary_step)"
  "list_index steps 10 = Inr (\<lambda>env. install_step)"
  by (simp_all add: list_index_def steps_def)

lemma helper_show_step_threads:
  assumes "0 \<le> current_step s" "current_step s \<le> 10"
  shows "threads (show_step env s) =
           (if current_step s = 10 then threads s @ [config s] else threads s)"
  using helper_step_range[OF assms]
  by (auto simp: show_step_def Let_def clear_content_def tk_report_def helper_length_steps
      helper_list_index_steps step_defs split: option.splits)

lemma helper_show_step_entries:
  "current_step s = 8 \<Longrightarrow> entries (show_step env s) \<noteq> None"
  by (auto simp: show_step_def Let_def clear_content_def tk_report_def helper_length_steps
      helper_list_index_steps step_defs split: option.splits)

subsection \<open>Assignments to the dict\<close>
lemma helper_config_get_update:
  "config_get (AList.update k v c) k' = (if k' = k then v else config_get c k')"
  by (simp add: config_get_def update_conv')

lemma helper_keys_update:
  "k \<in> set (map fst c) \<Longrightarrow> map fst (AList.update k v c) = map fst c"
  by (simp add: update_keys)

lemma helper_disk_selected_update:
  "disk_selected (AList.update k v c) = (if k = ''target_disk'' then truthy v else disk_selected c)"
  by (simp add: disk_selected_def helper_config_get_update)

lemma helper_stored_update:
  "k \<notin> {''root_password'', ''user_password'', ''username'', ''hostname''} \<Longrightarrow>
     stored e (AList.update k v c) = stored e c"
  by (auto simp: stored_def helper_config_get_update)

lemma helper_users_validated_update:
  "k \<notin> {''root_password'', ''user_password'', ''username'', ''hostname''} \<Longrightarrow>
     users_validated (AList.update k v c) = users_validated c"
  unfolding users_validated_def using helper_stored_update[of k] by simp

lemma helper_inv_cong:
  assumes "config t = config s" "current_step t = current_step s"
    "entries s \<noteq> None \<longrightarrow> entries t \<noteq> None" "threads t = threads s"
  shows "wizard_inv s \<Longrightarrow> wizard_inv t"
  using assms by (simp add: wizard_inv_def)

lemma helper_inv_update:
  assumes "wizard_inv s" "k \<in> set (map fst initial_config)"
    "k \<notin> {''root_password'', ''user_password'', ''username'', ''hostname''}"
    "k = ''target_disk'' \<longrightarrow> truthy v"
    "k = ''filesystem'' \<longrightarrow> v \<in> PyStr ` set filesystems"
  shows "wizard_inv (update_config k v s)"
  using assms
  by (auto simp: wizard_inv_def update_config_def helper_config_get_update helper_keys_update
      helper_disk_selected_update helper_users_validated_update)

subsection \<open>The invariant\<close>

lemma helper_initial_keys:
  "map fst initial_config =
     [''target_disk'', ''filesystem'', ''desktop_environment'', ''root_password'', ''username'',
      ''user_password'', ''user_fullname'', ''hostname'', ''language'', ''keyboard'',
      ''timezone'', ''mirror_country'', ''install_nvidia'', ''install_nonfree'']"
  by (simp add: initial_config_def)

lemma helper_inv_show_step:
  assumes "0 \<le> current_step s" "current_step s \<le> 10"
    "6 \<le> current_step s \<or> threads s \<noteq> [] \<longrightarrow> disk_selected (config s)"
    "9 \<le> current_step s \<or> threads s \<noteq> [] \<longrightarrow> users_validated (config s)"
    "\<forall>c \<in> set (threads s). disk_selected c \<and> users_validated c"
    "config_get (config s) ''filesystem'' \<in> PyStr ` set filesystems"
    "map fst (config s) = map fst initial_config"
  shows "wizard_inv (show_step env s)"
  using assms
  by (auto simp: wizard_inv_def helper_show_step_config helper_show_step_current
      helper_show_step_threads helper_show_step_entries)

lemma helper_inv_store_entries:
  assumes "wizard_inv s" "users_error e = None"
  shows "users_validated (config (store_entries e s))"
    "disk_selected (config (store_entries e s)) = disk_selected (config s)"
    "config_get (config (store_entries e s)) ''filesystem'' = config_get (config s) ''filesystem''"
    "map fst (config (store_entries e s)) = map fst (config s)"
    "threads (store_entries e s) = threads s"
    "current_step (store_entries e s) = current_step s"
proof -
  have "stored e (config (store_entries e s))"
    by (simp add: stored_def store_entries_def update_config_def helper_config_get_update)
  with assms(2) show "users_validated (config (store_entries e s))"
    unfolding users_validated_def by blast
  show "disk_selected (config (store_entries e s)) = disk_selected (config s)"
    by (simp add: store_entries_def update_config_def helper_disk_selected_update)
  show "config_get (config (store_entries e s)) ''filesystem'' = config_get (config s) ''filesystem''"
    by (simp add: store_entries_def update_config_def helper_config_get_update)
  from assms(1) have k: "map fst (config s) = map fst initial_config"
    by (simp add: wizard_inv_def)
  show "map fst (config (store_entries e s)) = map fst (config s)"
    by (simp add: store_entries_def update_config_def helper_keys_update k helper_initial_keys)
  show "threads (store_entries e s) = threads s" "current_step (store_entries e s) = current_step s"
    by (simp_all add: store_entries_def update_config_def)
qed

lemma helper_inv_advance:
  assumes "wizard_inv s" "current_step s \<noteq> 10"
  shows "wizard_inv (advance env s)"
proof -
  from assms(1) have b: "0 \<le> current_step s" "current_step s \<le> 10"
    by (simp_all add: wizard_inv_def)
  consider (five) "current_step s = 5" | (eight) "current_step s = 8"
    | (other) "current_step s \<noteq> 5" "current_step s \<noteq> 8" by blast
  then show ?thesis
  proof cases
    case five
    show ?thesis
    proof (cases "truthy (config_get (config s) ''target_disk'')")
      case True
      have "wizard_inv (show_step env (s\<lparr>current_step := 6\<rparr>))"
        using assms(1) True five
        by (intro helper_inv_show_step) (auto simp: wizard_inv_def disk_selected_def)
      with True five show ?thesis
        by (simp add: advance_def validate_current_step_def)
    next
      case False
      with five assms(1) show ?thesis
        by (auto simp: advance_def validate_current_step_def messagebox_def
            intro: helper_inv_cong[of _ s])
    qed
  next
    case eight
    with assms(1) obtain e where e: "entries s = Some e" by (auto simp: wizard_inv_def)
    show ?thesis
    proof (cases "entries_alive s")
      case False
      with eight e assms(1) show ?thesis
        by (auto simp: advance_def validate_current_step_def tk_report_def
            intro: helper_inv_cong[of _ s])
    next
      case True
      show ?thesis
      proof (cases "users_error e")
        case (Some msg)
        with True eight e assms(1) show ?thesis
          by (auto simp: advance_def validate_current_step_def messagebox_def
              intro: helper_inv_cong[of _ s])
      next
        case None
        note st = helper_inv_store_entries[OF assms(1) None]
        have "wizard_inv (show_step env ((store_entries e s)\<lparr>current_step := 9\<rparr>))"
          using assms(1) eight st
          by (intro helper_inv_show_step) (auto simp: wizard_inv_def)
        with None True eight e st show ?thesis
          by (simp add: advance_def validate_current_step_def)
      qed
    qed
  next
    case other
    have "wizard_inv (show_step env (s\<lparr>current_step := current_step s + 1\<rparr>))"
      using assms other b
      by (intro helper_inv_show_step) (auto simp: wizard_inv_def)
    with other show ?thesis
      by (simp add: advance_def validate_current_step_def)
  qed
qed

lemma helper_inv_next_step:
  assumes "wizard_inv s"
  shows "wizard_inv (next_step env s)"
proof (cases "current_step s = 10")
  case True
  with assms show ?thesis by (simp add: next_step_def helper_length_steps)
next
  case False
  from assms False have "wizard_inv (advance env s)" by (rule helper_inv_advance)
  with False show ?thesis by (simp add: next_step_def helper_length_steps)
qed

lemma helper_inv_prev_step:
  assumes "wizard_inv s"
  shows "wizard_inv (prev_step env s)"
proof (cases "current_step s > 0")
  case True
  have "wizard_inv (show_step env (s\<lparr>current_step := current_step s - 1\<rparr>))"
    using assms True by (intro helper_inv_show_step) (auto simp: wizard_inv_def)
  with True show ?thesis by (simp add: prev_step_def)
next
  case False
  with assms show ?thesis by (simp add: prev_step_def)
qed

lemma helper_inv_quit: "wizard_inv s \<Longrightarrow> wizard_inv (quit_installer env s)"
  by (simp add: wizard_inv_def quit_installer_def messagebox_def Let_def)

lemma helper_inv_installation_error:
  "wizard_inv s \<Longrightarrow> wizard_inv (installation_error msg s)"
  by (simp add: wizard_inv_def installation_error_def messagebox_def tk_report_def)

lemma helper_inv_installation_complete:
  "wizard_inv s \<Longrightarrow> wizard_inv (installation_complete env s)"
  by (simp add: wizard_inv_def installation_complete_def quit_installer_def messagebox_def
      tk_report_def Let_def)

lemma helper_inv_run_callback: "wizard_inv s \<Longrightarrow> wizard_inv (run_callback env cell f s)"
  unfolding run_callback_def
  by (cases f; cases cell)
     (simp_all add: helper_inv_installation_error helper_inv_installation_complete,
      simp_all add: wizard_inv_def tk_report_def)

lemma helper_inv_choose_value:
  assumes "wizard_inv s" "key \<in> set (map fst initial_config)"
    "key \<noteq> ''root_password''" "key \<noteq> ''user_password''" "key \<noteq> ''username''"
    "key \<noteq> ''hostname''" "key \<noteq> ''target_disk''"
    "key = ''filesystem'' \<longrightarrow> vals = filesystems"
  shows "wizard_inv (choose_value scr vals key i s)"
proof (cases "content s = scr \<and> i < length vals")
  case True
  have "wizard_inv (update_config key (PyStr (vals ! i)) s)"
  proof (rule helper_inv_update[OF assms(1,2)])
    show "key \<notin> {''root_password'', ''user_password'', ''username'', ''hostname''}"
      using assms(3-6) by blast
    show "key = ''target_disk'' \<longrightarrow> truthy (PyStr (vals ! i))"
      using assms(7) by blast
    show "key = ''filesystem'' \<longrightarrow> PyStr (vals ! i) \<in> PyStr ` set filesystems"
      using assms(8) True by (metis imageI nth_mem)
  qed
  with True show ?thesis by (simp add: choose_value_def)
next
  case False
  then have "choose_value scr vals key i s = s" unfolding choose_value_def by metis
  with assms(1) show ?thesis by simp
qed

lemma helper_inv_choose_mirror:
  assumes "wizard_inv s"
  shows "wizard_inv (fire env (ChooseMirror i) s)"
proof (cases "content s = Network \<and> i < length mirrors")
  case False
  with assms show ?thesis by auto
next
  case True
  show ?thesis
  proof (cases "filter (\<lambda>(name, code). name = fst (mirrors ! i)) mirrors")
    case Nil
    with True assms show ?thesis by (simp add: wizard_inv_def tk_report_def)
  next
    case (Cons p rest)
    obtain name code where p: "p = (name, code)" by (cases p)
    have "wizard_inv (update_config ''mirror_country'' (PyStr code) s)"
      by (rule helper_inv_update[OF assms]) (simp_all add: helper_initial_keys)
    with True Cons p show ?thesis by simp
  qed
qed

lemma helper_inv_choose_disk:
  assumes "wizard_inv s"
  shows "wizard_inv (fire env (ChooseDisk i) s)"
proof (cases "content s = Partition \<and> i < length (disks s)")
  case False
  with assms show ?thesis by auto
next
  case True
  show ?thesis
  proof (cases "str_split (disks s ! i)")
    case Nil
    with True assms show ?thesis by (simp add: wizard_inv_def tk_report_def)
  next
    case (Cons d rest)
    then have "d \<noteq> []"
      using helper_split_ws_nonempty[of d "[]" "disks s ! i"] by (simp add: str_split_def)
    then have "wizard_inv (update_config ''target_disk'' (PyStr d) s)"
      by (intro helper_inv_update[OF assms]) (simp_all add: helper_initial_keys)
    with True Cons show ?thesis by simp
  qed
qed

lemma helper_inv_toggle:
  assumes "wizard_inv s"
  shows "wizard_inv (fire env ToggleNvidia s)" "wizard_inv (fire env ToggleNonfree s)"
proof -
  have a: "wizard_inv (s\<lparr>nvidia_var := b\<rparr>)" "wizard_inv (s\<lparr>nonfree_var := b\<rparr>)" for b
    using assms by (simp_all add: wizard_inv_def)
  have "wizard_inv (update_config ''install_nvidia'' v (s\<lparr>nvidia_var := b\<rparr>))" for v b
    by (rule helper_inv_update[OF a(1)]) (simp_all add: helper_initial_keys)
  moreover have "wizard_inv (update_config ''install_nonfree'' v (s\<lparr>nonfree_var := b\<rparr>))" for v b
    by (rule helper_inv_update[OF a(2)]) (simp_all add: helper_initial_keys)
  ultimately show "wizard_inv (fire env ToggleNvidia s)" "wizard_inv (fire env ToggleNonfree s)"
    using assms by simp_all
qed

lemma helper_inv_choose_events:
  assumes "wizard_inv s"
  shows "wizard_inv (fire env (ChooseLanguage i) s)"
    "wizard_inv (fire env (ChooseKeyboard i) s)"
    "wizard_inv (fire env (ChooseTimezone i) s)"
    "wizard_inv (fire env (ChooseFilesystem i) s)"
    "wizard_inv (fire env (ChooseDesktop i) s)"
  unfolding fire.simps
  by (rule helper_inv_choose_value[OF assms]; simp add: helper_initial_keys)+

lemma helper_inv_fire:
  assumes "wizard_inv s"
  shows "wizard_inv (fire env ev s)"
proof (cases ev)
  case NextStep
  then show ?thesis using assms by (simp add: helper_inv_next_step)
next
  case PrevStep
  then show ?thesis using assms by (simp add: helper_inv_prev_step)
next
  case PressNext
  from assms have "wizard_inv (s\<lparr>rebooted := True\<rparr>)" by (simp add: wizard_inv_def)
  with assms show ?thesis unfolding PressNext
    by (cases "next_btn_command s") (simp_all add: helper_inv_next_step)
next
  case PressBack
  then show ?thesis using assms by (simp add: helper_inv_prev_step)
next
  case PressQuit
  then show ?thesis using assms by (simp add: helper_inv_quit)
next
  case (ChooseLanguage i)
  show ?thesis unfolding ChooseLanguage by (rule helper_inv_choose_events[OF assms])
next
  case (ChooseKeyboard i)
  show ?thesis unfolding ChooseKeyboard by (rule helper_inv_choose_events[OF assms])
next
  case (ChooseMirror i)
  show ?thesis unfolding ChooseMirror by (rule helper_inv_choose_mirror[OF assms])
next
  case (ChooseTimezone i)
  show ?thesis unfolding ChooseTimezone by (rule helper_inv_choose_events[OF assms])
next
  case (ChooseDisk i)
  show ?thesis unfolding ChooseDisk by (rule helper_inv_choose_disk[OF assms])
next
  case (ChooseFilesystem i)
  show ?thesis unfolding ChooseFilesystem by (rule helper_inv_choose_events[OF assms])
next
  case (ChooseDesktop i)
  show ?thesis unfolding ChooseDesktop by (rule helper_inv_choose_events[OF assms])
next
  case ToggleNvidia
  show ?thesis unfolding ToggleNvidia by (rule helper_inv_toggle[OF assms])
next
  case ToggleNonfree
  show ?thesis unfolding ToggleNonfree by (rule helper_inv_toggle[OF assms])
next
  case (EditEntries e)
  then show ?thesis using assms by (simp add: wizard_inv_def)
next
  case (Callback cell f)
  then show ?thesis using assms by (simp add: helper_inv_run_callback)
qed

lemma helper_inv_new: "wizard_inv (new_installer env)"
  unfolding new_installer_def
  by (rule helper_inv_show_step)
     (simp_all add: initial_config_def config_get_def filesystems_def)

lemma helper_inv_run: "wizard_inv s \<Longrightarrow> wizard_inv (run tr s)"
  by (induction tr s rule: run.induct) (simp_all add: helper_inv_fire)

lemma helper_inv_reachable: "wizard_inv (run tr (new_installer env))"
  by (rule helper_inv_run[OF helper_inv_new])

section \<open>Lemmas about the worker\<close>

lemma helper_json_keys_dump: "json_keys (json_dump c) = map fst c"
  by (simp add: json_dump_def comp_def case_prod_unfold)

lemma helper_perform_popen_called:
  assumes "perform_installation c renv fs = Some r" "popen_calls r \<noteq> []"
  shows "files r config_file = Some (json_dump c)"
  using assms
  by (auto simp: perform_installation_def except_clause_def Let_def
      split: if_splits option.splits sum.splits prod.splits)

lemma helper_json_strings_dump:
  "json_strings (json_dump c) = concat (map (\<lambda>(k, v). case v of PyStr s \<Rightarrow> [s] | _ \<Rightarrow> []) c)"
proof -
  have "(case to_json v of JString s \<Rightarrow> [s] | _ \<Rightarrow> []) = (case v of PyStr s \<Rightarrow> [s] | _ \<Rightarrow> [])"
    for v by (cases v) simp_all
  then show ?thesis
    by (simp add: json_dump_def comp_def case_prod_unfold)
qed

lemma helper_perform_independent:
  "map_option (\<lambda>r. (popen_calls r, callbacks r, e_cell r)) (perform_installation c renv fs)
   = map_option (\<lambda>r. (popen_calls r, callbacks r, e_cell r)) (perform_installation c' renv fs')"
  by (auto simp: perform_installation_def except_clause_def Let_def
      split: if_splits option.splits sum.splits prod.splits)

lemma helper_perform_files:
  assumes "perform_installation c renv fs = Some r"
  shows "(popen_calls r = [] \<or> popen_calls r = [[backend_script]]) \<and>
         (files r = fs \<or> files r = fs(config_file \<mapsto> json_dump c))"
  using assms
  by (auto simp: perform_installation_def except_clause_def Let_def
      split: if_splits option.splits sum.splits prod.splits)

section \<open>Lemmas about the disk list\<close>

lemma helper_split_ws_first:
  "\<forall>c \<in> set w. \<not> isspace c \<Longrightarrow> tok @ w \<noteq> [] \<Longrightarrow> isspace sp \<Longrightarrow>
     split_ws tok (w @ sp # rest) = (tok @ w) # split_ws [] rest"
  by (induction w arbitrary: tok) auto

lemma helper_split_ws_no_space:
  "t \<in> set (split_ws tok s) \<Longrightarrow> list_all (\<lambda>c. \<not> isspace c) tok \<Longrightarrow>
     list_all (\<lambda>c. \<not> isspace c) t"
proof (induction s arbitrary: tok)
  case Nil
  then show ?case by (cases "tok = []") simp_all
next
  case (Cons a s)
  show ?case
  proof (cases "isspace a")
    case True
    show ?thesis
    proof (cases "tok = []")
      case True
      with \<open>isspace a\<close> Cons.prems have "t \<in> set (split_ws [] s)" by simp
      then show ?thesis by (rule Cons.IH) simp
    next
      case False
      with \<open>isspace a\<close> Cons.prems have "t = tok \<or> t \<in> set (split_ws [] s)" by simp
      then show ?thesis
      proof
        assume "t = tok"
        with Cons.prems(2) show ?thesis by simp
      next
        assume "t \<in> set (split_ws [] s)"
        then show ?thesis by (rule Cons.IH) simp
      qed
    qed
  next
    case False
    with Cons.prems have "t \<in> set (split_ws (tok @ [a]) s)" by simp
    moreover from False Cons.prems(2) have "list_all (\<lambda>c. \<not> isspace c) (tok @ [a])" by simp
    ultimately show ?thesis by (rule Cons.IH)
  qed
qed

lemma helper_split_disk_entry:
  assumes "list_all (\<lambda>c. \<not> isspace c) name"
  shows "str_split (''/dev/'' @ name @ '' ('' @ sz @ '')'')
           = (''/dev/'' @ name) # split_ws [] (''('' @ sz @ '')'')"
proof -
  have sp: "isspace (CHR '' '')" by (simp add: isspace_def)
  have dev: "list_all (\<lambda>c. \<not> isspace c) ''/dev/''" by (simp add: isspace_def)
  with assms have ns: "\<forall>c \<in> set (''/dev/'' @ name). \<not> isspace c"
    unfolding list_all_iff by auto
  have ne: "[] @ (''/dev/'' @ name) \<noteq> []" by simp
  have eq: "''/dev/'' @ name @ '' ('' @ sz @ '')''
      = (''/dev/'' @ name) @ CHR '' '' # (''('' @ sz @ '')'')" by simp
  show ?thesis
    unfolding str_split_def eq
    using helper_split_ws_first[OF ns ne sp, of "''('' @ sz @ '')''"]
    by (simp only: append_Nil)
qed

lemma helper_disk_entry_split:
  assumes "d \<in> set (disk_entry line)"
  shows "\<exists>name rest. str_split d = (''/dev/'' @ name) # rest"
proof -
  from assms have d: "d = ''/dev/'' @ str_split line ! 0 @ '' ('' @ str_split line ! 1 @ '')''"
    and len: "3 \<le> length (str_split line)"
    unfolding disk_entry_def Let_def by (simp_all split: if_splits)
  from len have "0 < length (str_split line)" by linarith
  then have "str_split line ! 0 \<in> set (str_split line)" by (rule nth_mem)
  then have "str_split line ! 0 \<in> set (split_ws [] line)" by (simp only: str_split_def)
  then have "list_all (\<lambda>c. \<not> isspace c) (str_split line ! 0)"
    by (rule helper_split_ws_no_space) simp
  from helper_split_disk_entry[OF this, of "str_split line ! 1"] d show ?thesis by blast
qed

lemma helper_lsblk_disks_split:
  assumes "d \<in> set (lsblk_disks r)"
  shows "\<exists>name rest. str_split d = (''/dev/'' @ name) # rest"
proof (cases r)
  case LsblkRaised
  have "str_split ''/dev/sda (Unknown size)'' = (''/dev/'' @ ''sda'') # [''(Unknown'', ''size)'']"
    by code_simp
  moreover from assms LsblkRaised have "d = ''/dev/sda (Unknown size)''"
    by (simp add: lsblk_disks_def)
  ultimately show ?thesis by blast
next
  case (LsblkStdout out)
  with assms obtain line where "d \<in> set (disk_entry line)"
    by (auto simp: lsblk_disks_def)
  then show ?thesis by (rule helper_disk_entry_split)
qed

lemma helper_steps_dialogs: "f \<in> set steps \<Longrightarrow> dialogs (f env s) = dialogs s"
  by (auto simp: steps_def step_defs tk_report_def Let_def split: option.splits)

lemma helper_show_step_dialogs: "dialogs (show_step env s) = dialogs s"
  by (auto simp: show_step_def Let_def clear_content_def tk_report_def helper_steps_dialogs
      dest!: helper_list_index_mem split: sum.splits)

lemma helper_str_split_nonempty: "t \<in> set (str_split s) \<Longrightarrow> t \<noteq> []"
  unfolding str_split_def by (rule helper_split_ws_nonempty)

section \<open>Lemmas about the outcome of a run of the worker\<close>

text \<open>
  When the backend exits after finitely many rounds of the loop and every \<open>readline\<close>
  before that returns, the worker returns, and what it hands to the main loop is a
  sequence of status updates followed by one outcome: \<open>installation_complete\<close> for
  return code 0, \<open>installation_error\<close> with the remaining output otherwise. A missing
  backend script gives the one error callback. Either outcome, called on the install
  step, shows its message box.
\<close>

lemma helper_monitor_exits:
  assumes "polls p n = Some rc"
    and "\<forall>k. k0 \<le> k \<and> k < n \<longrightarrow> polls p k = None \<and> (\<exists>l. readlines p k = Inr l)"
    and "k0 \<le> n"
  shows "\<exists>fs'. monitor p k0 fs = Some (Inr rc, fs') \<and>
           list_all (\<lambda>f. \<exists>t. f = StatusConfig t) (drop (length fs) fs') \<and> take (length fs) fs' = fs"
  using assms(2,3)
proof (induction "n - k0" arbitrary: k0 fs)
  case 0
  then have "k0 = n" by simp
  with assms(1) show ?case by (subst monitor.simps) simp
next
  case (Suc d)
  then have lt: "k0 < n" by simp
  with Suc.prems(1) obtain l where none: "polls p k0 = None" and rl: "readlines p k0 = Inr l"
    by blast
  have "d = n - Suc k0" using Suc.hyps(2) by simp
  moreover have "\<forall>k. Suc k0 \<le> k \<and> k < n \<longrightarrow> polls p k = None \<and> (\<exists>l. readlines p k = Inr l)"
    using Suc.prems(1) by simp
  moreover have "Suc k0 \<le> n" using lt by simp
  ultimately obtain fs' where m: "monitor p (Suc k0) (fs @ status_callbacks l) = Some (Inr rc, fs')"
    and all: "list_all (\<lambda>f. \<exists>t. f = StatusConfig t)
        (drop (length (fs @ status_callbacks l)) fs')"
    and tk: "take (length (fs @ status_callbacks l)) fs' = fs @ status_callbacks l"
    using Suc.hyps(1)[of "Suc k0" "fs @ status_callbacks l"] by blast
  have st: "list_all (\<lambda>f. \<exists>t. f = StatusConfig t) (status_callbacks l)"
    by (simp add: status_callbacks_def split: option.splits)
  from tk have fs': "fs' = fs @ status_callbacks l @ drop (length (fs @ status_callbacks l)) fs'"
    by (metis append_assoc append_take_drop_id)
  then have "drop (length fs) fs'
      = status_callbacks l @ drop (length (fs @ status_callbacks l)) fs'"
    by (metis append_eq_conv_conj)
  with all st have a: "list_all (\<lambda>f. \<exists>t. f = StatusConfig t) (drop (length fs) fs')"
    by simp
  from fs' have b: "take (length fs) fs' = fs" by (metis append_eq_conv_conj)
  have "monitor p k0 fs = Some (Inr rc, fs')"
    by (subst monitor.simps) (simp add: none rl m)
  with a b show ?case by blast
qed

lemma helper_run_outcome:
  assumes "backend_exists renv" "open_raises renv = None" "popen_result renv = Inr p"
    and "polls p n = Some rc"
    and "\<forall>k. k < n \<longrightarrow> polls p k = None \<and> (\<exists>l. readlines p k = Inr l)"
  shows "\<exists>r sts. perform_installation c renv fs = Some r \<and>
           list_all (\<lambda>f. \<exists>t. f = StatusConfig t) sts \<and>
           callbacks r = sts @ [if rc = 0 then InstallationComplete
                                else InstallationError (communicate_output p)]"
proof -
  from helper_monitor_exits[OF assms(4), of 0 "[StatusConfig ''Starting installation...'']"]
    assms(5)
  obtain fs' where m: "monitor p 0 [StatusConfig ''Starting installation...''] = Some (Inr rc, fs')"
    and all: "list_all (\<lambda>f. \<exists>t. f = StatusConfig t) (drop 1 fs')"
    and tk: "take 1 fs' = [StatusConfig ''Starting installation...'']"
    by auto
  have "list_all (\<lambda>f. \<exists>t. f = StatusConfig t) (take 1 fs' @ drop 1 fs')"
    unfolding list_all_append using all tk by simp
  then have st: "list_all (\<lambda>f. \<exists>t. f = StatusConfig t) fs'"
    by simp
  have "\<exists>r. perform_installation c renv fs = Some r \<and>
      callbacks r = fs' @ [if rc = 0 then InstallationComplete
                           else InstallationError (communicate_output p)]"
    using assms(1-3) m by (simp add: perform_installation_def Let_def)
  with st show ?thesis by blast
qed

lemma helper_run_script_missing:
  "\<not> backend_exists renv \<Longrightarrow>
     map_option callbacks (perform_installation c renv fs)
       = Some [InstallationError (''Backend script not found: '' @ backend_script)]"
  by (simp add: perform_installation_def)

lemma helper_report_shown:
  "dialogs (run_callback env cell InstallationComplete (install_step s))
     = dialogs s @ [ShowInfo ''Installation Complete''
          (''on1OS has been installed successfully!'' @ [CHR 0x0A, CHR 0x0A]
             @ ''Please reboot your computer.''),
        AskOkCancel ''Quit'' ''Are you sure you want to quit the installer?'']"
  "dialogs (run_callback env cell (InstallationError msg) (install_step s))
     = dialogs s @ [ShowError ''Installation Error''
          (''Installation failed with error:'' @ [CHR 0x0A] @ msg)]"
  by (simp_all add: run_callback_def installation_complete_def installation_error_def
      quit_installer_def messagebox_def install_step_def Let_def)

section \<open>Lemmas about the configuration the worker is started with\<close>

text \<open>
  Whenever the install step starts the worker, and from then on, the dict has a target
  disk that is set, two passwords that are not empty, and a user name and a host name
  that \<open>re.match\<close> accepted; by \<open>helper_re_match_username\<close> and
  \<open>helper_re_match_hostname\<close> these are the full matches of the patterns and the full
  matches followed by one newline. This holds for every sequence of button presses,
  direct calls of \<open>next_step\<close> and \<open>prev_step\<close>, selections, edits and worker
  callbacks.
\<close>

lemma helper_worker_config_checked:
  assumes "c \<in> set (threads (run tr (new_installer env))) \<or>
           (threads (run tr (new_installer env)) \<noteq> [] \<and> c = config (run tr (new_installer env)))"
  shows "truthy (config_get c ''target_disk'') \<and>
         (\<exists>rp up u h.
            config_get c ''root_password'' = PyStr rp \<and> rp \<noteq> [] \<and>
            config_get c ''user_password'' = PyStr up \<and> up \<noteq> [] \<and>
            config_get c ''username'' = PyStr u \<and> re_match_username u \<and>
            config_get c ''hostname'' = PyStr h \<and> re_match_hostname h)"
proof -
  from assms helper_inv_reachable[of tr env]
  have "disk_selected c \<and> users_validated c"
    unfolding wizard_inv_def by blast
  then show ?thesis
    unfolding disk_selected_def users_validated_def helper_users_error_None stored_def
    by blast
qed

section \<open>Lemmas about the passwords\<close>

text \<open>
  Storing other passwords changes nothing in the document without the secrets, so an
  engine that keeps the secrets behaves the same; the document itself holds both
  passwords as they are.
\<close>

lemma helper_without_passwords_update:
  assumes "k = ''root_password'' \<or> k = ''user_password''"
  shows "without_passwords (json_dump (AList.update k v c)) = without_passwords (json_dump c)"
proof -
  have "filter (\<lambda>(k, v). k \<noteq> ''root_password'' \<and> k \<noteq> ''user_password'')
          (map (\<lambda>(k, v). (k, to_json v)) (AList.update k v c))
      = filter (\<lambda>(k, v). k \<noteq> ''root_password'' \<and> k \<noteq> ''user_password'')
          (map (\<lambda>(k, v). (k, to_json v)) c)"
    using assms by (induction c) auto
  then show ?thesis by (simp add: without_passwords_def json_dump_def)
qed

lemma helper_engine_same_output:
  assumes "engine_keeps_secrets engine"
  shows "engine (json_dump (with_passwords rp up c)) = engine (json_dump (with_passwords rp' up' c))"
proof -
  have "without_passwords (json_dump (with_passwords rp up c))
      = without_passwords (json_dump (with_passwords rp' up' c))"
    by (simp add: with_passwords_def helper_without_passwords_update)
  with assms show ?thesis unfolding engine_keeps_secrets_def by metis
qed

lemma helper_passwords_in_document:
  "rp \<in> set (json_strings (json_dump (with_passwords rp up c)))"
  "up \<in> set (json_strings (json_dump (with_passwords rp up c)))"
proof -
  have "map_of (with_passwords rp up c) ''root_password'' = Some (PyStr rp)"
    by (simp add: with_passwords_def update_conv')
  then have "(''root_password'', PyStr rp) \<in> set (with_passwords rp up c)"
    by (rule map_of_SomeD)
  then show "rp \<in> set (json_strings (json_dump (with_passwords rp up c)))"
    unfolding helper_json_strings_dump by force
  have "map_of (with_passwords rp up c) ''user_password'' = Some (PyStr up)"
    by (simp add: with_passwords_def update_conv')
  then have "(''user_password'', PyStr up) \<in> set (with_passwords rp up c)"
    by (rule map_of_SomeD)
  then show "up \<in> set (json_strings (json_dump (with_passwords rp up c)))"
    unfolding helper_json_strings_dump by force
qed

text \<open>
  The engine that reports the target disk keeps the secrets. The engine that prints the
  root password does not, and the worker hands what it prints to the status label as it
  is: the worker does not filter the output of the backend.
\<close>

lemma helper_json_field_without_passwords:
  assumes "k \<noteq> ''root_password''" "k \<noteq> ''user_password''"
  shows "json_field (without_passwords d) k = json_field d k"
proof (cases d)
  case (JObject kvs)
  have "map_of (filter (\<lambda>(k, v). k \<noteq> ''root_password'' \<and> k \<noteq> ''user_password'') kvs) k
      = map_of kvs k"
    using assms by (induction kvs) auto
  with JObject show ?thesis by (simp add: json_field_def without_passwords_def)
qed (simp_all add: json_field_def without_passwords_def)

lemma helper_reporting_engine_keeps_secrets: "engine_keeps_secrets reporting_engine"
proof -
  have f: "json_field (without_passwords d) ''target_disk'' = json_field d ''target_disk''" for d
    by (rule helper_json_field_without_passwords) simp_all
  show ?thesis by (simp add: engine_keeps_secrets_def reporting_engine_def f cong: if_cong)
qed

lemma helper_echoing_engine_excluded: "\<not> engine_keeps_secrets echoing_engine"
proof
  assume "engine_keeps_secrets echoing_engine"
  then have "echoing_engine (JObject [(''root_password'', JString ''r00t;rm'')])
      = echoing_engine (without_passwords (JObject [(''root_password'', JString ''r00t;rm'')]))"
    unfolding engine_keeps_secrets_def by blast
  then have "readlines (echoing_engine (JObject [(''root_password'', JString ''r00t;rm'')])) 0
      = readlines (echoing_engine
          (without_passwords (JObject [(''root_password'', JString ''r00t;rm'')]))) 0"
    by simp
  then show False
    by (simp add: echoing_engine_def json_field_def without_passwords_def)
qed

lemma helper_echoed_password_shown:
  "map_option callbacks
     (perform_installation (with_passwords ''r00t;rm'' ''$(id) | x'' initial_config)
        (engine_environment True None None echoing_engine
           (with_passwords ''r00t;rm'' ''$(id) | x'' initial_config)) fs)
   = Some [StatusConfig ''Starting installation...'',
           StatusConfig ''Setting password r00t;rm'', InstallationComplete]"
  by code_simp

section \<open>The claims\<close>

subsection \<open>Navigation\<close>

text \<open>
  C9. Whatever is done to the installer from its first screen on, \<open>current_step\<close> stays
  between 0 and \<open>len(self.steps) - 1\<close>, which is 10. \<open>prev_step\<close> takes one off only when
  the step is positive, and \<open>next_step\<close> on the last step (the install step) changes
  nothing.
\<close>

theorem C9_current_step_in_bounds:
  "0 \<le> current_step (run tr (new_installer env)) \<and>
   current_step (run tr (new_installer env)) \<le> int (length steps) - 1 \<and>
   int (length steps) - 1 = 10 \<and>
   current_step (prev_step e s) =
     (if current_step s > 0 then current_step s - 1 else current_step s) \<and>
   next_step e (s\<lparr>current_step := int (length steps) - 1\<rparr>) =
     s\<lparr>current_step := int (length steps) - 1\<rparr>"
  using helper_inv_reachable[of tr env]
  by (simp add: wizard_inv_def helper_length_steps prev_step_def next_step_def
      helper_show_step_current)

text \<open>
  C8. The dict starts with the filesystem \<open>ext4\<close>, and in every state the installer can
  reach the filesystem is one of \<open>ext4\<close>, \<open>btrfs\<close> and \<open>xfs\<close>: the only assignment to the
  key is the read-only combobox over that list.
\<close>

theorem C8_filesystem_closed_set:
  "config_get (config (new_installer env)) ''filesystem'' = PyStr ''ext4'' \<and>
   config_get (config (run tr (new_installer env))) ''filesystem''
     \<in> {PyStr ''ext4'', PyStr ''btrfs'', PyStr ''xfs''}"
proof -
  have "config_get (config (new_installer env)) ''filesystem'' = PyStr ''ext4''"
    by (simp add: new_installer_def helper_show_step_config initial_config_def config_get_def)
  moreover have "config_get (config (run tr (new_installer env))) ''filesystem''
      \<in> PyStr ` set filesystems"
    using helper_inv_reachable[of tr env] by (simp add: wizard_inv_def)
  ultimately show ?thesis by (simp add: filesystems_def)
qed

text \<open>
  C7. On the partition step (step 5) with no target disk in the dict (\<open>None\<close> or the
  empty string), \<open>next_step\<close> shows the error box and changes nothing else, so the step
  stays 5; and in every state the installer can reach, a step beyond 5 comes with a
  target disk that is set.
\<close>

theorem C7_partition_step_needs_disk:
  "(current_step s = 5 \<and> \<not> truthy (config_get (config s) ''target_disk'') \<longrightarrow>
      next_step env s = messagebox (ShowError ''Error'' ''Please select a target disk.'') s \<and>
      current_step (next_step env s) = 5) \<and>
   (5 < current_step (run tr (new_installer env')) \<longrightarrow>
      truthy (config_get (config (run tr (new_installer env'))) ''target_disk''))"
proof -
  have "5 < current_step (run tr (new_installer env')) \<longrightarrow>
      truthy (config_get (config (run tr (new_installer env'))) ''target_disk'')"
    using helper_inv_reachable[of tr env'] by (simp add: wizard_inv_def disk_selected_def)
  then show ?thesis
    by (simp add: next_step_def helper_length_steps advance_def validate_current_step_def
        messagebox_def)
qed

text \<open>
  The same on the machine with two disks: five presses of Next reach the partition step
  with no disk chosen, a sixth press shows the error box and stays; with the second disk
  chosen the wizard moves on and the disk is set.
\<close>

theorem C7_partition_step_needs_disk_witness:
  "current_step (run to_partition_step (new_installer two_disks)) = 5 \<and>
   \<not> truthy (config_get (config (run to_partition_step (new_installer two_disks))) ''target_disk'') \<and>
   current_step (next_step two_disks (run to_partition_step (new_installer two_disks))) = 5 \<and>
   dialogs (next_step two_disks (run to_partition_step (new_installer two_disks)))
     = [ShowError ''Error'' ''Please select a target disk.''] \<and>
   5 < current_step (run to_users_step (new_installer two_disks)) \<and>
   truthy (config_get (config (run to_users_step (new_installer two_disks))) ''target_disk'')"
proof -
  have a: "current_step (run to_partition_step (new_installer two_disks)) = 5"
    by code_simp
  have b: "\<not> truthy (config_get (config (run to_partition_step (new_installer two_disks))) ''target_disk'')"
    by code_simp
  have c: "5 < current_step (run to_users_step (new_installer two_disks))"
    by code_simp
  have d: "dialogs (run to_partition_step (new_installer two_disks)) = []"
    by code_simp
  from a b c d
    C7_partition_step_needs_disk[of "run to_partition_step (new_installer two_disks)"
      two_disks to_users_step two_disks]
  show ?thesis by (simp add: messagebox_def)
qed

subsection \<open>The partition step\<close>

text \<open>
  C10. When the \<open>lsblk\<close> subprocess raises, the partition step offers one choice, the
  string \<open>/dev/sda (Unknown size)\<close>; choosing it sets \<open>target_disk\<close> to \<open>/dev/sda\<close>,
  whatever disks the machine has, and there is no other position to choose.
\<close>

theorem C10_lsblk_fallback:
  "disks (partition_step (env\<lparr>lsblk := LsblkRaised\<rparr>) s) = [''/dev/sda (Unknown size)''] \<and>
   config_get (config (fire env' (ChooseDisk 0) (partition_step (env\<lparr>lsblk := LsblkRaised\<rparr>) s)))
     ''target_disk'' = PyStr ''/dev/sda'' \<and>
   fire env' (ChooseDisk (Suc i)) (partition_step (env\<lparr>lsblk := LsblkRaised\<rparr>) s)
     = partition_step (env\<lparr>lsblk := LsblkRaised\<rparr>) s"
proof -
  have sp: "str_split ''/dev/sda (Unknown size)'' = [''/dev/sda'', ''(Unknown'', ''size)'']"
    by code_simp
  show ?thesis
    by (simp add: partition_step_def lsblk_disks_def sp update_config_def
        helper_config_get_update)
qed

subsection \<open>The users step\<close>

text \<open>
  C5. The claim is that validation passes only for a user name that matches
  \<open>[a-z][a-z0-9]*\<close> as a whole. With the user name \<open>bob\<close> followed by a newline, and the
  other entries valid, every check of the users step passes, \<open>validate_current_step\<close>
  returns \<open>True\<close> and stores that name in the dict, although the name is not a full match
  of the pattern: \<open>$\<close> also matches before a final newline.
\<close>

theorem C5_trailing_newline_accepted:
  "users_error newline_user = None \<and>
   username_entry newline_user = ''bob'' @ [CHR 0x0A] \<and>
   \<not> spec_username_fullmatch (username_entry newline_user) \<and>
   validate_current_step
     (fire two_disks (EditEntries newline_user) (run to_users_step (new_installer two_disks)))
   = Inr (True, store_entries newline_user
       (fire two_disks (EditEntries newline_user) (run to_users_step (new_installer two_disks)))) \<and>
   config_get (config (store_entries newline_user s)) ''username'' = PyStr (''bob'' @ [CHR 0x0A])"
proof -
  have a: "users_error newline_user = None" by code_simp
  have b: "username_entry newline_user = ''bob'' @ [CHR 0x0A]" by code_simp
  have c: "\<not> spec_username_fullmatch (username_entry newline_user)" by code_simp
  have d: "current_step (run to_users_step (new_installer two_disks)) = 8" by code_simp
  have e: "content (run to_users_step (new_installer two_disks)) = Users" by code_simp
  have f: "entries_alive (run to_users_step (new_installer two_disks))" by code_simp
  have g: "entries (run to_users_step (new_installer two_disks)) \<noteq> None" by code_simp
  have h: "config_get (config (store_entries newline_user s)) ''username''
      = PyStr (''bob'' @ [CHR 0x0A])"
    by (simp add: store_entries_def update_config_def helper_config_get_update b)
  from a b c d e f g h show ?thesis
    by (simp add: validate_current_step_def)
qed

text \<open>
  C1. The claim is that no configuration reaches the backend unless its user name and
  its host name match their patterns. With the user name \<open>bob\<close> and the host name
  \<open>host\<close>, each followed by a newline, and the other entries valid, the presses that
  lead to the install step start the worker with exactly these two names in the dict,
  no error box having been shown; neither name is a full match of its pattern. The
  defect is the one of C5: \<open>$\<close> also matches before a final newline.
\<close>

theorem C1_unvalidated_record_reaches_worker:
  "map (\<lambda>c. (config_get c ''username'', config_get c ''hostname''))
     (threads (run to_install_step_newline (new_installer two_disks)))
   = [(PyStr (''bob'' @ [CHR 0x0A]), PyStr (''host'' @ [CHR 0x0A]))] \<and>
   \<not> spec_username_fullmatch (''bob'' @ [CHR 0x0A]) \<and>
   \<not> spec_hostname_fullmatch (''host'' @ [CHR 0x0A]) \<and>
   current_step (run to_install_step_newline (new_installer two_disks)) = 10 \<and>
   dialogs (run to_install_step_newline (new_installer two_disks)) = []"
  by code_simp

subsection \<open>The worker\<close>

text \<open>
  C4. The claim is that every run ends in a success report or in a failure report that
  carries the diagnostic text, the exception message when launching raised. When the
  backend script exists and \<open>Popen\<close> raises (the script is not executable, say), the
  worker has written the configuration file, scheduled the status text and then the
  lambda of the \<open>except\<close> clause. Called by the main loop, that lambda finds \<open>e\<close>
  unbound and raises \<open>NameError\<close>: \<open>installation_error\<close> never runs. The status label
  keeps \<open>Starting installation...\<close>, no dialog is shown and both buttons stay disabled.
\<close>

theorem C4_exception_never_reported:
  "perform_installation cfg
     \<lparr>backend_exists = True, open_raises = None, popen_result = Inl e\<rparr> fs
   = Some \<lparr>files = fs(config_file \<mapsto> json_dump cfg), popen_calls = [[backend_script]],
           callbacks = [StatusConfig ''Starting installation...'', InstallationErrorStrE],
           e_cell = None\<rparr> \<and>
   mainloop env None [StatusConfig ''Starting installation...'', InstallationErrorStrE]
     (install_step s)
   = (install_step s)\<lparr>install_status := ''Starting installation...'',
                       tk_errors := tk_errors s @ [NameError]\<rparr> \<and>
   dialogs (mainloop env None [StatusConfig ''Starting installation...'', InstallationErrorStrE]
     (install_step s)) = dialogs s \<and>
   \<not> next_btn_state (mainloop env None
       [StatusConfig ''Starting installation...'', InstallationErrorStrE] (install_step s)) \<and>
   \<not> back_btn_state (mainloop env None
       [StatusConfig ''Starting installation...'', InstallationErrorStrE] (install_step s))"
  by (simp add: perform_installation_def except_clause_def Let_def run_callback_def
      install_step_def tk_report_def)

text \<open>
  C6, as amended. In every state the installer can reach, when a run of the worker
  has called \<open>Popen\<close>, the configuration file holds the document of the dict, and its
  fields are \<open>target_disk\<close>, \<open>filesystem\<close>, \<open>desktop_environment\<close>, \<open>root_password\<close>,
  \<open>username\<close>, \<open>user_password\<close>, \<open>user_fullname\<close>, \<open>hostname\<close>, \<open>language\<close>,
  \<open>keyboard\<close>, \<open>timezone\<close>, \<open>mirror_country\<close>, \<open>install_nvidia\<close> and
  \<open>install_nonfree\<close>, in this order.
\<close>

theorem C6_document_fields:
  assumes "perform_installation (config (run tr (new_installer env))) renv fs = Some r"
    and "popen_calls r \<noteq> []"
  shows "files r config_file = Some (json_dump (config (run tr (new_installer env)))) \<and>
         json_keys (json_dump (config (run tr (new_installer env)))) =
           [''target_disk'', ''filesystem'', ''desktop_environment'', ''root_password'',
            ''username'', ''user_password'', ''user_fullname'', ''hostname'', ''language'',
            ''keyboard'', ''timezone'', ''mirror_country'', ''install_nvidia'',
            ''install_nonfree'']"
  using helper_perform_popen_called[OF assms] helper_inv_reachable[of tr env]
  by (simp add: helper_json_keys_dump wizard_inv_def helper_initial_keys)

text \<open>The same for Alice's installation with a backend that runs and exits with 0.\<close>

theorem C6_document_fields_witness:
  "perform_installation (config (run to_install_step (new_installer two_disks)))
     (backend_runs 0) Map.empty \<noteq> None \<and>
   popen_calls (the (perform_installation (config (run to_install_step (new_installer two_disks)))
     (backend_runs 0) Map.empty)) \<noteq> [] \<and>
   files (the (perform_installation (config (run to_install_step (new_installer two_disks)))
     (backend_runs 0) Map.empty)) config_file
     = Some (json_dump (config (run to_install_step (new_installer two_disks)))) \<and>
   json_keys (json_dump (config (run to_install_step (new_installer two_disks)))) =
     [''target_disk'', ''filesystem'', ''desktop_environment'', ''root_password'',
      ''username'', ''user_password'', ''user_fullname'', ''hostname'', ''language'',
      ''keyboard'', ''timezone'', ''mirror_country'', ''install_nvidia'',
      ''install_nonfree'']"
proof -
  have a: "perform_installation (config (run to_install_step (new_installer two_disks)))
     (backend_runs 0) Map.empty \<noteq> None" by code_simp
  have b: "popen_calls (the (perform_installation
     (config (run to_install_step (new_installer two_disks))) (backend_runs 0) Map.empty)) \<noteq> []"
    by code_simp
  from a have c: "perform_installation (config (run to_install_step (new_installer two_disks)))
     (backend_runs 0) Map.empty = Some (the (perform_installation
     (config (run to_install_step (new_installer two_disks))) (backend_runs 0) Map.empty))"
    by simp
  from a b C6_document_fields[OF c b] show ?thesis by simp
qed

text \<open>
  C6 as stated asks for fields named \<open>locale\<close>, \<open>keyboard_layout\<close> and
  \<open>mirror_region\<close>. The document delivered for Alice's installation has none of them.
\<close>

theorem C6_no_locale_field_counterexample:
  "map_option
     (\<lambda>d. (json_keys d, ''locale'' \<in> set (json_keys d),
           ''keyboard_layout'' \<in> set (json_keys d), ''mirror_region'' \<in> set (json_keys d)))
     (delivered_document (config (run to_install_step (new_installer two_disks)))
        (backend_runs 0) Map.empty)
   = Some ([''target_disk'', ''filesystem'', ''desktop_environment'', ''root_password'',
            ''username'', ''user_password'', ''user_fullname'', ''hostname'', ''language'',
            ''keyboard'', ''timezone'', ''mirror_country'', ''install_nvidia'',
            ''install_nonfree''], False, False, False)"
  by code_simp

text \<open>
  C2, as amended. Let the engine keep the secrets, and let the worker run and return on
  a dict that holds the root password \<open>rp\<close> and the user password \<open>up\<close>. Then
  \<open>Popen\<close> was called at most once, with the script path as its only argument; the
  argument list and the callbacks handed to the main loop (the statuses and the error
  texts shown to the user) are those of the run with any other two passwords \<open>rp'\<close>
  and \<open>up'\<close>; the worker writes no file other than the configuration file and
  removes none: that file is in place once \<open>Popen\<close> has been called, and its
  document holds \<open>rp\<close> and \<open>up\<close> as they are.
\<close>

theorem C2_secrets_in_file_only:
  assumes "engine_keeps_secrets engine"
    and "perform_installation (with_passwords rp up c)
           (engine_environment b oe pe engine (with_passwords rp up c)) fs = Some r"
  shows "(popen_calls r = [] \<or> popen_calls r = [[backend_script]]) \<and>
         map_option (\<lambda>r. (popen_calls r, callbacks r))
           (perform_installation (with_passwords rp' up' c)
              (engine_environment b oe pe engine (with_passwords rp' up' c)) fs)
           = Some (popen_calls r, callbacks r) \<and>
         (files r = fs \<or> files r = fs(config_file \<mapsto> json_dump (with_passwords rp up c))) \<and>
         (popen_calls r \<noteq> [] \<longrightarrow>
            files r config_file = Some (json_dump (with_passwords rp up c))) \<and>
         rp \<in> set (json_strings (json_dump (with_passwords rp up c))) \<and>
         up \<in> set (json_strings (json_dump (with_passwords rp up c)))"
proof -
  have env: "engine_environment b oe pe engine (with_passwords rp' up' c)
      = engine_environment b oe pe engine (with_passwords rp up c)"
    by (simp add: engine_environment_def
        helper_engine_same_output[OF assms(1), of rp' up' c rp up] split: option.splits)
  have "map_option (\<lambda>r. (popen_calls r, callbacks r, e_cell r))
           (perform_installation (with_passwords rp' up' c)
              (engine_environment b oe pe engine (with_passwords rp up c)) fs)
        = Some (popen_calls r, callbacks r, e_cell r)"
    using helper_perform_independent[of "with_passwords rp' up' c"
        "engine_environment b oe pe engine (with_passwords rp up c)" fs
        "with_passwords rp up c" fs] assms(2) by simp
  then have "map_option (\<lambda>r. (popen_calls r, callbacks r))
           (perform_installation (with_passwords rp' up' c)
              (engine_environment b oe pe engine (with_passwords rp' up' c)) fs)
        = Some (popen_calls r, callbacks r)"
    unfolding env by (auto simp: map_option_case split: option.splits)
  moreover have "popen_calls r \<noteq> [] \<longrightarrow>
      files r config_file = Some (json_dump (with_passwords rp up c))"
    using helper_perform_popen_called[OF assms(2)] by simp
  ultimately show ?thesis
    using helper_perform_files[OF assms(2)] helper_passwords_in_document by blast
qed

text \<open>
  The same for Alice's installation, whose passwords hold shell metacharacters, with
  the engine that reports the target disk and exits with 3, compared with the run on
  two other passwords.
\<close>

theorem C2_secrets_in_file_only_witness:
  "engine_keeps_secrets reporting_engine \<and>
   perform_installation
     (with_passwords ''r00t;rm'' ''$(id) | x'' (config (run to_install_step (new_installer two_disks))))
     (engine_environment True None None reporting_engine
        (with_passwords ''r00t;rm'' ''$(id) | x''
           (config (run to_install_step (new_installer two_disks))))) Map.empty \<noteq> None \<and>
   map_option (\<lambda>r. (popen_calls r, callbacks r))
     (perform_installation
        (with_passwords ''hunter2'' ''x'' (config (run to_install_step (new_installer two_disks))))
        (engine_environment True None None reporting_engine
           (with_passwords ''hunter2'' ''x''
              (config (run to_install_step (new_installer two_disks))))) Map.empty)
   = Some ([[backend_script]],
           [StatusConfig ''Starting installation...'', StatusConfig ''Partitioning /dev/sdb'',
            InstallationError ''mkfs failed'']) \<and>
   files (the (perform_installation
     (with_passwords ''r00t;rm'' ''$(id) | x'' (config (run to_install_step (new_installer two_disks))))
     (engine_environment True None None reporting_engine
        (with_passwords ''r00t;rm'' ''$(id) | x''
           (config (run to_install_step (new_installer two_disks))))) Map.empty)) config_file
   = Some (json_dump (with_passwords ''r00t;rm'' ''$(id) | x''
        (config (run to_install_step (new_installer two_disks))))) \<and>
   ''r00t;rm'' \<in> set (json_strings (json_dump (with_passwords ''r00t;rm'' ''$(id) | x''
        (config (run to_install_step (new_installer two_disks)))))) \<and>
   ''$(id) | x'' \<in> set (json_strings (json_dump (with_passwords ''r00t;rm'' ''$(id) | x''
        (config (run to_install_step (new_installer two_disks))))))"
proof -
  let ?c = "with_passwords ''r00t;rm'' ''$(id) | x''
      (config (run to_install_step (new_installer two_disks)))"
  let ?e = "engine_environment True None None reporting_engine ?c"
  have k: "engine_keeps_secrets reporting_engine"
    by (rule helper_reporting_engine_keeps_secrets)
  have a: "perform_installation ?c ?e Map.empty \<noteq> None" by code_simp
  have b: "popen_calls (the (perform_installation ?c ?e Map.empty)) = [[backend_script]]"
    by code_simp
  have d: "callbacks (the (perform_installation ?c ?e Map.empty))
      = [StatusConfig ''Starting installation...'', StatusConfig ''Partitioning /dev/sdb'',
         InstallationError ''mkfs failed'']" by code_simp
  from a have c: "perform_installation ?c ?e Map.empty
      = Some (the (perform_installation ?c ?e Map.empty))" by simp
  from k a b d
    C2_secrets_in_file_only[OF k c, of "''hunter2''" "''x''"]
  show ?thesis by simp
qed

text \<open>
  C2 as stated asks that a file holding the credentials be removed right after use.
  In Alice's installation with \<open>Popen\<close> raising, no backend ever runs, the worker has
  returned, and the configuration file still holds both passwords in clear.
\<close>

theorem C2_passwords_left_in_file_counterexample:
  "map_option
     (\<lambda>r. (popen_calls r,
           case files r config_file of
             None \<Rightarrow> False
           | Some d \<Rightarrow> ''r00t;rm'' \<in> set (json_strings d) \<and> ''$(id) | x'' \<in> set (json_strings d)))
     (perform_installation (config (run to_install_step (new_installer two_disks)))
        popen_fails Map.empty)
   = Some ([[backend_script]], True)"
  by code_simp

subsection \<open>The target disk and the live medium\<close>

text \<open>
  C3, as amended. For every configuration whose target disk is the device hosting the
  live medium, Disk Preparation fails with \<open>PreconditionFailed\<close> and no operation has
  run. The wizard itself has no such guard: when \<open>lsblk\<close> lists the live medium's
  device on a line that contains \<open>disk\<close> and has at least three fields, the partition
  step offers it; and when the entry chosen on the partition step is that of the live
  medium's device, the device becomes the target disk and Next moves on to step 6
  without an error box.
\<close>

theorem C3_guard_in_disk_preparation_only:
  "(config_get cfg ''target_disk'' = PyStr (live_medium m) \<longrightarrow>
      disk_preparation m cfg = ([], Some PreconditionFailed)) \<and>
   (line \<in> set (str_split_on (CHR 0x0A) (str_strip out)) \<and> str_in ''disk'' line \<and>
      str_split line = name # sz # kind # others \<and> live_medium m = ''/dev/'' @ name \<longrightarrow>
      live_medium m @ '' ('' @ sz @ '')'' \<in> set (lsblk_disks (LsblkStdout out))) \<and>
   (current_step s = 5 \<and> content s = Partition \<and> i < length (disks s) \<and>
      str_split (disks s ! i) = live_medium m # rest \<longrightarrow>
      config_get (config (fire env (ChooseDisk i) s)) ''target_disk'' = PyStr (live_medium m) \<and>
      current_step (next_step env' (fire env (ChooseDisk i) s)) = 6 \<and>
      dialogs (next_step env' (fire env (ChooseDisk i) s)) = dialogs s)"
proof (intro conjI impI)
  assume "config_get cfg ''target_disk'' = PyStr (live_medium m)"
  then show "disk_preparation m cfg = ([], Some PreconditionFailed)"
    by (simp add: disk_preparation_def)
next
  assume a: "line \<in> set (str_split_on (CHR 0x0A) (str_strip out)) \<and> str_in ''disk'' line \<and>
      str_split line = name # sz # kind # others \<and> live_medium m = ''/dev/'' @ name"
  then have "line \<noteq> []" by auto
  with a have "disk_entry line = [''/dev/'' @ name @ '' ('' @ sz @ '')'']"
    by (simp add: disk_entry_def)
  then have "''/dev/'' @ name @ '' ('' @ sz @ '')'' \<in> set (disk_entry line)"
    by (simp only: list.set_intros)
  moreover from a have "line \<in> set (str_split_on (CHR 0x0A) (str_strip out))" by blast
  ultimately have "\<exists>l \<in> set (str_split_on (CHR 0x0A) (str_strip out)).
      ''/dev/'' @ name @ '' ('' @ sz @ '')'' \<in> set (disk_entry l)" by blast
  then have "''/dev/'' @ name @ '' ('' @ sz @ '')'' \<in> set (lsblk_disks (LsblkStdout out))"
    by (simp add: lsblk_disks_def)
  with a show "live_medium m @ '' ('' @ sz @ '')'' \<in> set (lsblk_disks (LsblkStdout out))"
    by simp
next
  assume b: "current_step s = 5 \<and> content s = Partition \<and> i < length (disks s) \<and>
      str_split (disks s ! i) = live_medium m # rest"
  then have b1: "current_step s = 5" and b2: "content s = Partition"
    and b4: "i < length (disks s)" and sp: "str_split (disks s ! i) = live_medium m # rest"
    by blast+
  from sp have "live_medium m \<in> set (str_split (disks s ! i))" by simp
  then have ne: "live_medium m \<noteq> []" by (rule helper_str_split_nonempty)
  define t where "t = fire env (ChooseDisk i) s"
  from b2 b4 sp have tf: "t = update_config ''target_disk'' (PyStr (live_medium m)) s"
    by (simp add: t_def)
  have g: "config_get (config t) ''target_disk'' = PyStr (live_medium m)"
    by (simp add: tf update_config_def helper_config_get_update)
  then show "config_get (config (fire env (ChooseDisk i) s)) ''target_disk''
      = PyStr (live_medium m)" by (simp only: t_def)
  from b1 have st: "current_step t = 5" by (simp add: tf update_config_def)
  have ds: "dialogs t = dialogs s" by (simp add: tf update_config_def)
  from g ne have tr: "truthy (config_get (config t) ''target_disk'')" by simp
  from st tr have n: "next_step env' t = show_step env' (t\<lparr>current_step := 6\<rparr>)"
    by (simp add: next_step_def helper_length_steps advance_def validate_current_step_def)
  have "current_step (next_step env' t) = 6"
    by (simp add: n helper_show_step_current)
  then show "current_step (next_step env' (fire env (ChooseDisk i) s)) = 6"
    by (simp only: t_def)
  have "dialogs (next_step env' t) = dialogs s"
    by (simp add: n helper_show_step_dialogs ds)
  then show "dialogs (next_step env' (fire env (ChooseDisk i) s)) = dialogs s"
    by (simp only: t_def)
qed

text \<open>
  The same on the machine with two disks that was started from the USB stick
  \<open>/dev/sdb\<close>, for the line and the entry of that stick and for Alice's installation.
\<close>

theorem C3_guard_in_disk_preparation_only_witness:
  "config_get (hd (threads (run to_install_step (new_installer two_disks)))) ''target_disk''
     = PyStr (live_medium usb_stick_machine) \<and>
   disk_preparation usb_stick_machine (hd (threads (run to_install_step (new_installer two_disks))))
     = ([], Some PreconditionFailed) \<and>
   ''sdb 8G disk'' \<in> set (str_split_on (CHR 0x0A)
      (str_strip (''sda 100G disk'' @ [CHR 0x0A] @ ''sdb 8G disk'' @ [CHR 0x0A]))) \<and>
   str_in ''disk'' ''sdb 8G disk'' \<and>
   live_medium usb_stick_machine @ '' ('' @ ''8G'' @ '')'' \<in> set (lsblk_disks
      (LsblkStdout (''sda 100G disk'' @ [CHR 0x0A] @ ''sdb 8G disk'' @ [CHR 0x0A]))) \<and>
   current_step (run to_partition_step (new_installer two_disks)) = 5 \<and>
   str_split (disks (run to_partition_step (new_installer two_disks)) ! 1)
     = [live_medium usb_stick_machine, ''(8G)''] \<and>
   config_get (config (fire two_disks (ChooseDisk 1)
     (run to_partition_step (new_installer two_disks)))) ''target_disk''
     = PyStr (live_medium usb_stick_machine) \<and>
   current_step (next_step two_disks
     (fire two_disks (ChooseDisk 1) (run to_partition_step (new_installer two_disks)))) = 6 \<and>
   dialogs (next_step two_disks
     (fire two_disks (ChooseDisk 1) (run to_partition_step (new_installer two_disks)))) = []"
proof -
  let ?out = "''sda 100G disk'' @ [CHR 0x0A] @ ''sdb 8G disk'' @ [CHR 0x0A]"
  let ?s = "run to_partition_step (new_installer two_disks)"
  let ?c = "hd (threads (run to_install_step (new_installer two_disks)))"
  have lm: "live_medium usb_stick_machine = ''/dev/'' @ ''sdb''" by code_simp
  have t: "config_get ?c ''target_disk'' = PyStr (live_medium usb_stick_machine)" by code_simp
  have a: "''sdb 8G disk'' \<in> set (str_split_on (CHR 0x0A) (str_strip ?out))" by code_simp
  have b: "str_in ''disk'' ''sdb 8G disk''" by code_simp
  have c: "str_split ''sdb 8G disk'' = ''sdb'' # ''8G'' # ''disk'' # []" by code_simp
  have d: "current_step ?s = 5" by code_simp
  have e: "content ?s = Partition" by code_simp
  have f: "str_split (disks ?s ! 1) = live_medium usb_stick_machine # [''(8G)'']" by code_simp
  have g: "1 < length (disks ?s)" by code_simp
  have h: "dialogs ?s = []" by code_simp
  from t a b c d e f g h lm
    C3_guard_in_disk_preparation_only[of ?c usb_stick_machine "''sdb 8G disk''" ?out "''sdb''"
      "''8G''" "''disk''" "[]" ?s 1 "[''(8G)'']" two_disks two_disks]
  show ?thesis by simp
qed

text \<open>
  C3 as stated says that the installer does not offer the live medium's device. On the
  machine started from the USB stick \<open>/dev/sdb\<close> the partition step offers that
  device as its second entry, and Alice's installation starts the worker with the live
  medium's device as the target disk, no error box having been shown.
\<close>

theorem C3_live_medium_offered_counterexample:
  "live_medium usb_stick_machine = ''/dev/sdb'' \<and>
   disks (run to_partition_step (new_installer two_disks))
     = [''/dev/sda (100G)'', live_medium usb_stick_machine @ '' (8G)''] \<and>
   length (threads (run to_install_step (new_installer two_disks))) = 1 \<and>
   config_get (hd (threads (run to_install_step (new_installer two_disks)))) ''target_disk''
     = PyStr (live_medium usb_stick_machine) \<and>
   dialogs (run to_install_step (new_installer two_disks)) = []"
  by code_simp

end
